theory Spec2Isabelle
  imports Complex_Main "HOL-Library.AList"
begin

section \<open>Data model of the split bill controller\<close>

text \<open>
  Numbers are JavaScript numbers in the source, that is IEEE doubles; every finite
  double is a rational. The quantities and prices of the calculators are computed as
  exact rationals: the statements about shares and their sums are statements of exact
  arithmetic. The validation of the percentages is computed as the source computes it,
  in doubles (section on the request validation).

  A customization is an object with the fields \<open>qty\<close> and \<open>price\<close>, the field
  \<open>originalPrice\<close> that a split adds (absent before the first split), and whatever
  other fields the order carries, kept together in \<open>c_rest\<close>. An item is an object
  with the array \<open>customizations\<close> and its other fields in \<open>i_rest\<close>.
\<close>

record Customization =
  qty :: rat
  price :: rat
  originalPrice :: "rat option"
  c_rest :: string

record ItemLine =
  customizations :: "Customization list"
  i_rest :: string

text \<open>
  An item map is a JavaScript object keyed by item id. It is the association list of
  its own properties, in the order of \<open>Object.entries\<close>, which is also what the
  serialisation to JSON writes (the payload of an insert, the body of a response). An
  object holds every key once, so the keys of a well-formed item map are distinct.
\<close>

type_synonym ItemMap = "(string \<times> ItemLine) list"

definition wf_items :: "ItemMap \<Rightarrow> bool" where
  "wf_items items \<longleftrightarrow> distinct (map fst items)"

text \<open>
  The assignment \<open>split[itemId] = v\<close> on an object built from \<open>{}\<close>: it replaces
  the value of a key that is present and appends a key that is not, except for the key
  \<open>__proto__\<close>, for which it calls the setter that \<open>Object.prototype\<close> provides: \<open>v\<close>
  becomes the prototype of the object and the object gets no property. (An item map
  parsed from JSON can hold \<open>__proto__\<close> as a key of its own.)
\<close>

definition set_property :: "string \<Rightarrow> ItemLine \<Rightarrow> ItemMap \<Rightarrow> ItemMap" where
  "set_property k v obj = (if k = ''__proto__'' then obj else AList.update k v obj)"

definition plain_ids :: "ItemMap \<Rightarrow> bool" where
  "plain_ids items \<longleftrightarrow> ''__proto__'' \<notin> set (map fst items)"

datatype js_error =
    Error string
  | RangeError string
  | TypeError string

fun message :: "js_error \<Rightarrow> string" where
  "message (Error m) = m"
| "message (RangeError m) = m"
| "message (TypeError m) = m"

section \<open>The split calculators\<close>

text \<open>
  \<open>Array(count)\<close> throws a RangeError unless \<open>count\<close> is an integer between
  \<open>0\<close> and \<open>2^32 - 1\<close>.
\<close>

definition is_integer :: "rat \<Rightarrow> bool" where
  "is_integer x \<longleftrightarrow> of_int \<lfloor>x\<rfloor> = x"

definition valid_array_length :: "rat \<Rightarrow> bool" where
  "valid_array_length n \<longleftrightarrow> is_integer n \<and> 0 \<le> n \<and> n \<le> 4294967295"

text \<open>The object built for one customization in \<open>calculatePortionSplit\<close>.\<close>

definition portionCustomization :: "rat \<Rightarrow> Customization \<Rightarrow> Customization" where
  "portionCustomization count c =
     c\<lparr>qty := qty c / count, originalPrice := Some (price c), price := price c\<rparr>"

definition portionItem :: "rat \<Rightarrow> ItemLine \<Rightarrow> ItemLine" where
  "portionItem count itemData =
     itemData\<lparr>customizations := map (portionCustomization count) (customizations itemData)\<rparr>"

text \<open>
  \<open>calculatePortionSplit\<close>: \<open>count\<close> empty objects, then for every entry of
  \<open>items\<close>, in order, every split gets the item under its id. (The source also sums
  the quantities of the item into \<open>totalQty\<close> and \<open>splitQty\<close>, which it never reads.)
  \<open>Array(count).fill()\<close> builds every one of the \<open>count\<close> elements: from some count
  on, which depends on the engine and its heap and lies far below \<open>2^32\<close>, the engine
  cannot hold the splits and the process ends without returning. Whether the heap holds
  \<open>count\<close> splits of the items is the parameter \<open>heap\<close>; the result \<open>None\<close> is the
  process that has ended.
\<close>

definition calculatePortionSplit ::
  "(ItemMap \<Rightarrow> nat \<Rightarrow> bool) \<Rightarrow> ItemMap \<Rightarrow> rat \<Rightarrow> (js_error + ItemMap list) option" where
  "calculatePortionSplit heap items count =
     (if \<not> valid_array_length count then Some (Inl (RangeError ''Invalid array length''))
      else if \<not> heap items (nat \<lfloor>count\<rfloor>) then None
      else Some (Inr (fold (\<lambda>(itemId, itemData) splits.
                              map (set_property itemId (portionItem count itemData)) splits)
                        items (replicate (nat \<lfloor>count\<rfloor>) []))))"

text \<open>The object built for one customization in \<open>calculatePercentageSplit\<close>.\<close>

definition percentageCustomization :: "rat \<Rightarrow> Customization \<Rightarrow> Customization" where
  "percentageCustomization percentage c =
     c\<lparr>qty := (qty c * percentage) / 100, originalPrice := Some (price c), price := price c\<rparr>"

definition percentageItem :: "rat \<Rightarrow> ItemLine \<Rightarrow> ItemLine" where
  "percentageItem percentage itemData =
     itemData\<lparr>customizations :=
       map (percentageCustomization percentage) (customizations itemData)\<rparr>"

definition calculatePercentageSplit :: "ItemMap \<Rightarrow> rat list \<Rightarrow> ItemMap list" where
  "calculatePercentageSplit items percentages =
     map (\<lambda>percentage.
            fold (\<lambda>(itemId, itemData) split.
                    set_property itemId (percentageItem percentage itemData) split)
              items [])
       percentages"

text \<open>
  Reading a share: the quantity of customization \<open>k\<close> of item \<open>itemId\<close>; an item or
  a customization that the share does not hold counts as the quantity \<open>0\<close>.
\<close>

definition qtyAt :: "ItemMap \<Rightarrow> string \<Rightarrow> nat \<Rightarrow> rat" where
  "qtyAt m itemId k =
     (case map_of m itemId of
        None \<Rightarrow> 0
      | Some l \<Rightarrow> if k < length (customizations l) then qty (customizations l ! k) else 0)"

text \<open>
  The item map in which every item line has gone through \<open>f\<close>, with the ids and their
  order kept.
\<close>

definition mapItems :: "(ItemLine \<Rightarrow> ItemLine) \<Rightarrow> ItemMap \<Rightarrow> ItemMap" where
  "mapItems f items = map (\<lambda>(k, l). (k, f l)) items"

text \<open>
  Two customizations that differ at most in \<open>qty\<close> and \<open>originalPrice\<close>; two entries
  with the same id, the same item fields and pairwise such customizations, in the same
  order; two item maps with pairwise such entries, in the same order.
\<close>

definition same_customization :: "Customization \<Rightarrow> Customization \<Rightarrow> bool" where
  "same_customization c c' \<longleftrightarrow> c'\<lparr>qty := qty c, originalPrice := originalPrice c\<rparr> = c"

definition same_item :: "string \<times> ItemLine \<Rightarrow> string \<times> ItemLine \<Rightarrow> bool" where
  "same_item e e' \<longleftrightarrow>
     fst e' = fst e \<and> i_rest (snd e') = i_rest (snd e) \<and>
     list_all2 same_customization (customizations (snd e)) (customizations (snd e'))"

definition same_structure :: "ItemMap \<Rightarrow> ItemMap \<Rightarrow> bool" where
  "same_structure items share \<longleftrightarrow> list_all2 same_item items share"

text \<open>An order of two items, one of them with two customizations, one of quantity zero.\<close>

definition example_items :: ItemMap where
  "example_items =
     [(''pizza'',
        \<lparr>customizations =
           [\<lparr>qty = 10, price = 12, originalPrice = None, c_rest = ''large''\<rparr>,
            \<lparr>qty = 0, price = 2, originalPrice = None, c_rest = ''extra cheese''\<rparr>],
         i_rest = ''Pizza''\<rparr>),
      (''cola'',
        \<lparr>customizations = [\<lparr>qty = 20, price = 3, originalPrice = Some 3, c_rest = ''can''\<rparr>],
         i_rest = ''Cola''\<rparr>)]"

text \<open>An order with one item, whose id is the key \<open>__proto__\<close>.\<close>

definition proto_items :: ItemMap where
  "proto_items =
     [(''__proto__'',
        \<lparr>customizations = [\<lparr>qty = 20, price = 3, originalPrice = None, c_rest = ''can''\<rparr>],
         i_rest = ''Cola''\<rparr>)]"

section \<open>Double arithmetic\<close>

text \<open>
  The validation adds the percentages and compares their sum as doubles. A finite
  double is the rational it denotes; \<open>to_double\<close> rounds a rational to the nearest
  double, ties to the even significand, as every arithmetic operation of the language
  rounds its exact result: 53 significant bits, the least exponent of a quantum
  \<open>-1074\<close>, and no finite double from \<open>2^1024\<close> on, where the result is an infinity,
  here \<open>None\<close>.
\<close>

function bit_length :: "int \<Rightarrow> int" where
  "bit_length n = (if n \<le> 0 then 0 else 1 + bit_length (n div 2))"
  by pat_completeness auto
termination
  by (relation "measure nat") auto

declare bit_length.simps [simp del]

definition pow2 :: "int \<Rightarrow> rat" where
  "pow2 e = (if 0 \<le> e then 2 ^ nat e else 1 / 2 ^ nat (- e))"

text \<open>The exponent \<open>e\<close> with \<open>2^e \<le> |x| < 2^(e+1)\<close>, for \<open>x\<close> other than zero.\<close>

definition binary_exponent :: "rat \<Rightarrow> int" where
  "binary_exponent x =
     (let (p, q) = quotient_of \<bar>x\<bar>;
          e = bit_length p - bit_length q
      in if pow2 e \<le> \<bar>x\<bar> then e else e - 1)"

definition round_half_even :: "rat \<Rightarrow> int" where
  "round_half_even m =
     (let f = \<lfloor>m\<rfloor>; r = m - of_int f
      in if r < 1 / 2 then f else if 1 / 2 < r then f + 1 else if even f then f else f + 1)"

definition to_double :: "rat \<Rightarrow> rat option" where
  "to_double x =
     (if x = 0 then Some 0
      else let q = pow2 (max (binary_exponent x - 52) (- 1074));
               y = of_int (round_half_even (x / q)) * q
           in if y \<noteq> 0 \<and> 1024 \<le> binary_exponent y then None else Some y)"

text \<open>
  \<open>acc + curr\<close> on doubles, the accumulator being a finite double or an infinity
  (\<open>None\<close>); the entries are finite, so an infinite accumulator stays the same
  infinity and no NaN arises. Then the literal \<open>0.01\<close>, which denotes the double
  nearest to one hundredth.
\<close>

definition double_add :: "rat option \<Rightarrow> rat \<Rightarrow> rat option" where
  "double_add acc x = (case acc of None \<Rightarrow> None | Some a \<Rightarrow> to_double (a + x))"

definition double_001 :: rat where
  "double_001 = 5764607523034235 / 576460752303423488"

section \<open>Request validation\<close>

text \<open>
  The request body, typed as the interface documents it: a field that is absent (or
  \<open>null\<close>) is \<open>None\<close>. JavaScript's \<open>!x\<close> holds of an absent field, of the empty
  string and of the number \<open>0\<close>. The numbers of the body are the finite doubles that
  the parser of the body has produced. (A literal too large for a double parses to an
  infinity, which is not among the numbers here; the validation rejects a count that is
  infinite and every list of percentages that holds an infinity.)
\<close>

record SplitRequest =
  tableId :: "string option"
  orderId :: "string option"
  splitType :: "string option"
  count :: "rat option"
  percentages :: "rat list option"

fun falsy_str :: "string option \<Rightarrow> bool" where
  "falsy_str None = True"
| "falsy_str (Some s) = (s = [])"

fun bad_count :: "rat option \<Rightarrow> bool" where
  "bad_count None = True"
| "bad_count (Some c) = (c = 0 \<or> c < 1 \<or> \<not> is_integer c)"

definition err_required :: js_error where
  "err_required = Error ''tableId, orderId, and splitType are required''"

definition err_split_type :: js_error where
  \<open>err_split_type = Error ''splitType must be either "portion" or "percentage"''\<close>

definition err_count :: js_error where
  "err_count = Error ''For portion split, count must be a positive integer''"

definition err_percentages :: js_error where
  "err_percentages = Error ''For percentage split, percentages must be a non-empty array''"

definition err_sum :: js_error where
  "err_sum = Error ''Percentages must sum to 100''"

definition err_positive :: js_error where
  "err_positive = Error ''All percentages must be greater than 0''"

text \<open>
  Lines 31 and 32: the sum of the percentages, added from the left starting at \<open>0\<close>,
  every addition rounded, and the test \<open>Math.abs(sum - 100) > 0.01\<close>, which holds of
  an infinite sum.
\<close>

definition double_sum :: "rat list \<Rightarrow> rat option" where
  "double_sum ps = fold (\<lambda>curr acc. double_add acc curr) ps (Some 0)"

definition sum_mismatch :: "rat list \<Rightarrow> bool" where
  "sum_mismatch ps =
     (case double_sum ps of
        None \<Rightarrow> True
      | Some acc \<Rightarrow>
          (case to_double (acc - 100) of
             None \<Rightarrow> True
           | Some d \<Rightarrow> \<bar>d\<bar> > double_001))"

text \<open>The percentage branch of \<open>validateSplitRequest\<close> (lines 25 to 39).\<close>

definition validatePercentages :: "rat list option \<Rightarrow> js_error + unit" where
  "validatePercentages ps_opt =
     (case ps_opt of
        None \<Rightarrow> Inl err_percentages
      | Some ps \<Rightarrow>
          if ps = [] then Inl err_percentages
          else if sum_mismatch ps then Inl err_sum
          else if \<exists>p \<in> set ps. p \<le> 0 then Inl err_positive
          else Inr ())"

definition validateSplitRequest :: "SplitRequest \<Rightarrow> js_error + unit" where
  "validateSplitRequest body =
     (if falsy_str (tableId body) \<or> falsy_str (orderId body) \<or> falsy_str (splitType body)
      then Inl err_required
      else if splitType body \<noteq> Some ''portion'' \<and> splitType body \<noteq> Some ''percentage''
      then Inl err_split_type
      else if splitType body = Some ''portion'' \<and> bad_count (count body)
      then Inl err_count
      else if splitType body = Some ''percentage''
      then validatePercentages (percentages body)
      else Inr ())"

text \<open>
  The requests that the interface rules out, in its own words: a field among
  \<open>tableId\<close>, \<open>orderId\<close> and \<open>splitType\<close> is missing; the split type is neither
  \<open>portion\<close> nor \<open>percentage\<close>; for a portion split the count is missing, not an
  integer or below \<open>1\<close>; for a percentage split the percentages are missing, empty,
  hold an entry that is not positive, or sum to more than \<open>0.01\<close> away from \<open>100\<close>.
  In \<open>spec_invalid\<close> the sum and the distance are the exact ones; in
  \<open>request_invalid\<close> they are those of double arithmetic, the percentages added from
  the left. Then the errors that the validation throws.
\<close>

definition spec_invalid :: "SplitRequest \<Rightarrow> bool" where
  "spec_invalid req \<longleftrightarrow>
     tableId req = None \<or> orderId req = None \<or> splitType req = None \<or>
     (splitType req \<noteq> Some ''portion'' \<and> splitType req \<noteq> Some ''percentage'') \<or>
     (splitType req = Some ''portion'' \<and>
        (case count req of None \<Rightarrow> True | Some c \<Rightarrow> \<not> is_integer c \<or> c < 1)) \<or>
     (splitType req = Some ''percentage'' \<and>
        (case percentages req of
           None \<Rightarrow> True
         | Some ps \<Rightarrow> ps = [] \<or> (\<exists>p \<in> set ps. p \<le> 0) \<or> \<bar>sum_list ps - 100\<bar> > 1 / 100))"

definition request_invalid :: "SplitRequest \<Rightarrow> bool" where
  "request_invalid req \<longleftrightarrow>
     tableId req = None \<or> orderId req = None \<or> splitType req = None \<or>
     (splitType req \<noteq> Some ''portion'' \<and> splitType req \<noteq> Some ''percentage'') \<or>
     (splitType req = Some ''portion'' \<and>
        (case count req of None \<Rightarrow> True | Some c \<Rightarrow> \<not> is_integer c \<or> c < 1)) \<or>
     (splitType req = Some ''percentage'' \<and>
        (case percentages req of
           None \<Rightarrow> True
         | Some ps \<Rightarrow> ps = [] \<or> (\<exists>p \<in> set ps. p \<le> 0) \<or> sum_mismatch ps))"

definition validation_errors :: "js_error list" where
  "validation_errors =
     [err_required, err_split_type, err_count, err_percentages, err_sum, err_positive]"

section \<open>The order store and the completion collaborator\<close>

text \<open>
  A row of the table \<open>orders\<close>: its id, the two columns the controller reads, the item
  payload \<open>json_data.items\<close>, and the remaining columns, which the insert copies, in
  \<open>passthrough\<close>. The table is a list of rows: no uniqueness of ids is assumed.
\<close>

record OrderRow =
  order_id :: string
  restaurant_id :: string
  table_id :: string
  json_data :: ItemMap
  passthrough :: string

text \<open>
  What the controller does to the outside, in the order it does it. The flag of a
  statement says whether the store executed it (\<open>True\<close>) or raised an error.
\<close>

datatype event =
    Select string string bool
  | Connect bool
  | Begin bool
  | Insert string bool
  | Commit bool
  | Rollback bool
  | Release
  | CompleteOrder string string rat string
  | CheckOrders
  | CheckCompleted

text \<open>
  The visible table is \<open>committed\<close>; \<open>pending\<close> is the table as the open transaction
  of the client sees it, \<open>None\<close> when the client has no transaction open.
\<close>

record World =
  committed :: "OrderRow list"
  pending :: "OrderRow list option"
  log :: "event list"

datatype completion_outcome =
    Completed
  | Failed
  | Threw js_error

text \<open>
  The behaviour of the collaborators, which the controller does not decide: which
  statements the store rejects, what the completion of the original order returns
  (\<open>Failed\<close> is a falsy result of \<open>completeOrder\<close>, or a status of 400 or more set by
  the order controller) and does to the table, and whether the heap of the engine holds
  a number of splits of an item map.
\<close>

record Env =
  select_error :: "js_error option"
  connect_error :: "js_error option"
  begin_error :: "js_error option"
  insert_error :: "nat \<Rightarrow> js_error option"
  commit_error :: "js_error option"
  rollback_error :: "js_error option"
  completion :: completion_outcome
  completion_effect :: "OrderRow list \<Rightarrow> OrderRow list"
  heap_holds :: "ItemMap \<Rightarrow> nat \<Rightarrow> bool"

definition emit :: "event \<Rightarrow> World \<Rightarrow> World" where
  "emit e w = w\<lparr>log := log w @ [e]\<rparr>"

definition pool_connect :: "Env \<Rightarrow> World \<Rightarrow> (js_error + unit) \<times> World" where
  "pool_connect env w =
     (case connect_error env of
        Some e \<Rightarrow> (Inl e, emit (Connect False) w)
      | None \<Rightarrow> (Inr (), emit (Connect True) w))"

definition query_begin :: "Env \<Rightarrow> World \<Rightarrow> (js_error + unit) \<times> World" where
  "query_begin env w =
     (case begin_error env of
        Some e \<Rightarrow> (Inl e, emit (Begin False) w)
      | None \<Rightarrow>
          (Inr (), emit (Begin True)
             (case pending w of None \<Rightarrow> w\<lparr>pending := Some (committed w)\<rparr> | Some _ \<Rightarrow> w)))"

text \<open>
  The statement \<open>INSERT INTO orders (...) SELECT $1, ..., $2, ... FROM orders WHERE id = $3
  RETURNING *\<close>: one new row for every row whose id is \<open>$3\<close>, with the id \<open>$1\<close>, the
  payload \<open>$2\<close> and every other column of the row it selects.
\<close>

definition clone_rows :: "string \<Rightarrow> ItemMap \<Rightarrow> string \<Rightarrow> OrderRow list \<Rightarrow> OrderRow list" where
  "clone_rows newOrderId splitItems originalOrderId tbl =
     map (\<lambda>r. r\<lparr>order_id := newOrderId, json_data := splitItems\<rparr>)
       (filter (\<lambda>r. order_id r = originalOrderId) tbl)"

definition query_insert ::
  "Env \<Rightarrow> nat \<Rightarrow> string \<Rightarrow> ItemMap \<Rightarrow> string \<Rightarrow> World \<Rightarrow> (js_error + OrderRow list) \<times> World" where
  "query_insert env i newOrderId splitItems originalOrderId w =
     (case insert_error env i of
        Some e \<Rightarrow> (Inl e, emit (Insert newOrderId False) w)
      | None \<Rightarrow>
          (case pending w of
             Some tbl \<Rightarrow>
               let rows = clone_rows newOrderId splitItems originalOrderId tbl
               in (Inr rows, emit (Insert newOrderId True) (w\<lparr>pending := Some (tbl @ rows)\<rparr>))
           | None \<Rightarrow>
               let rows = clone_rows newOrderId splitItems originalOrderId (committed w)
               in (Inr rows,
                   emit (Insert newOrderId True) (w\<lparr>committed := committed w @ rows\<rparr>))))"

definition query_commit :: "Env \<Rightarrow> World \<Rightarrow> (js_error + unit) \<times> World" where
  "query_commit env w =
     (case commit_error env of
        Some e \<Rightarrow> (Inl e, emit (Commit False) w)
      | None \<Rightarrow>
          (Inr (), emit (Commit True)
             (case pending w of
                Some tbl \<Rightarrow> w\<lparr>committed := tbl, pending := None\<rparr>
              | None \<Rightarrow> w)))"

definition query_rollback :: "Env \<Rightarrow> World \<Rightarrow> (js_error + unit) \<times> World" where
  "query_rollback env w =
     (case rollback_error env of
        Some e \<Rightarrow> (Inl e, emit (Rollback False) w)
      | None \<Rightarrow> (Inr (), emit (Rollback True) (w\<lparr>pending := None\<rparr>)))"

definition client_release :: "World \<Rightarrow> World" where
  "client_release w = emit Release w"

text \<open>
  \<open>pool.query('SELECT * FROM orders WHERE id = $1 AND table_id = $2')\<close>, outside any
  transaction: the rows of the visible table.
\<close>

definition query_select ::
  "Env \<Rightarrow> string \<Rightarrow> string \<Rightarrow> World \<Rightarrow> (js_error + OrderRow list) \<times> World" where
  "query_select env oid tid w =
     (case select_error env of
        Some e \<Rightarrow> (Inl e, emit (Select oid tid False) w)
      | None \<Rightarrow>
          (Inr (filter (\<lambda>r. order_id r = oid \<and> table_id r = tid) (committed w)),
           emit (Select oid tid True) w))"

text \<open>
  The call of the completion collaborator for the original order, with the total \<open>0\<close>
  and the payment method \<open>split\<close>.
\<close>

definition invoke_completion :: "Env \<Rightarrow> OrderRow \<Rightarrow> World \<Rightarrow> completion_outcome \<times> World" where
  "invoke_completion env originalOrder w =
     (completion env,
      emit (CompleteOrder (restaurant_id originalOrder) (table_id originalOrder) 0 ''split'')
        (w\<lparr>committed := completion_effect env (committed w)\<rparr>))"

section \<open>Creating the split orders\<close>

text \<open>The decimal digits of a number, as a template literal prints \<open>i + 1\<close>.\<close>

definition digit_char :: "nat \<Rightarrow> char" where
  "digit_char d = char_of (48 + d)"

function string_of_nat :: "nat \<Rightarrow> string" where
  "string_of_nat n =
     (if n < 10 then [digit_char n] else string_of_nat (n div 10) @ [digit_char (n mod 10)])"
  by pat_completeness auto
termination
  by (relation "measure id") auto

declare string_of_nat.simps [simp del]

definition splitOrderId :: "string \<Rightarrow> nat \<Rightarrow> string" where
  "splitOrderId originalOrderId i = originalOrderId @ ''-split-'' @ string_of_nat (i + 1)"

record SplitResult =
  r_orderId :: string
  r_items :: ItemMap
  billData :: OrderRow

text \<open>
  The loop of \<open>createSplitOrders\<close> (lines 114 to 154), from index \<open>i\<close> on, over the
  splits that remain: it stops at the first insert that raises or returns no row.
\<close>

fun insertLoop ::
  "Env \<Rightarrow> string \<Rightarrow> ItemMap list \<Rightarrow> nat \<Rightarrow> SplitResult list \<Rightarrow> World
     \<Rightarrow> (js_error + SplitResult list) \<times> World" where
  "insertLoop env originalOrderId [] i results w = (Inr results, w)"
| "insertLoop env originalOrderId (splitItems # rest) i results w =
     (let newOrderId = splitOrderId originalOrderId i in
      case query_insert env i newOrderId splitItems originalOrderId w of
        (Inl e, w1) \<Rightarrow> (Inl e, w1)
      | (Inr rows, w1) \<Rightarrow>
          (case rows of
             [] \<Rightarrow> (Inl (Error (''Failed to create split order '' @ newOrderId)), w1)
           | newOrder # _ \<Rightarrow>
               insertLoop env originalOrderId rest (i + 1)
                 (results @ [\<lparr>r_orderId = newOrderId, r_items = splitItems, billData = newOrder\<rparr>])
                 w1))"

text \<open>
  The repository holds the controller twice. One copy (\<open>UtilCompletion\<close>) calls the
  utility \<open>completeOrder\<close> after the commit, lines 160 to 169, and lets what it throws
  reach the \<open>catch\<close> of the transaction; the other (\<open>ControllerCompletion\<close>) calls
  the order controller with a mock request and response inside a \<open>try\<close> of its own,
  lines 169 to 210, and then reads the tables \<open>orders\<close> and \<open>completed_orders\<close>, for
  logging only. The two copies agree everywhere else.
\<close>

datatype revision = UtilCompletion | ControllerCompletion

definition completeOriginalOrder ::
  "revision \<Rightarrow> Env \<Rightarrow> OrderRow \<Rightarrow> World \<Rightarrow> (js_error + unit) \<times> World" where
  "completeOriginalOrder rv env originalOrder w =
     (case invoke_completion env originalOrder w of
        (outcome, w1) \<Rightarrow>
          (case rv of
             UtilCompletion \<Rightarrow>
               (case outcome of
                  Threw e \<Rightarrow> (Inl e, w1)
                | Failed \<Rightarrow> (Inr (), w1)
                | Completed \<Rightarrow> (Inr (), w1))
           | ControllerCompletion \<Rightarrow> (Inr (), emit CheckCompleted (emit CheckOrders w1))))"

text \<open>The \<open>try\<close> block of \<open>createSplitOrders\<close>.\<close>

definition tryCreate ::
  "revision \<Rightarrow> Env \<Rightarrow> OrderRow \<Rightarrow> ItemMap list \<Rightarrow> string \<Rightarrow> World
     \<Rightarrow> (js_error + SplitResult list) \<times> World" where
  "tryCreate rv env originalOrder splits originalOrderId w =
     (case query_begin env w of
        (Inl e, w1) \<Rightarrow> (Inl e, w1)
      | (Inr _, w1) \<Rightarrow>
          (case insertLoop env originalOrderId splits 0 [] w1 of
             (Inl e, w2) \<Rightarrow> (Inl e, w2)
           | (Inr results, w2) \<Rightarrow>
               (case query_commit env w2 of
                  (Inl e, w3) \<Rightarrow> (Inl e, w3)
                | (Inr _, w3) \<Rightarrow>
                    (case completeOriginalOrder rv env originalOrder w3 of
                       (Inl e, w4) \<Rightarrow> (Inl e, w4)
                     | (Inr _, w4) \<Rightarrow> (Inr results, w4)))))"

text \<open>
  \<open>createSplitOrders\<close>: the connection, the \<open>try\<close> block, the \<open>catch\<close> that rolls back
  and throws the error again (or the error of the rollback), and the release of the
  client in \<open>finally\<close>. The parameter \<open>tableId\<close> (here \<open>tableId'\<close>) is not read.
\<close>

definition createSplitOrders ::
  "revision \<Rightarrow> Env \<Rightarrow> OrderRow \<Rightarrow> ItemMap list \<Rightarrow> string \<Rightarrow> string \<Rightarrow> World
     \<Rightarrow> (js_error + SplitResult list) \<times> World" where
  "createSplitOrders rv env originalOrder splits tableId' originalOrderId w =
     (case pool_connect env w of
        (Inl e, w1) \<Rightarrow> (Inl e, w1)
      | (Inr _, w1) \<Rightarrow>
          (case tryCreate rv env originalOrder splits originalOrderId w1 of
             (Inr results, w2) \<Rightarrow> (Inr results, client_release w2)
           | (Inl error, w2) \<Rightarrow>
               (case query_rollback env w2 of
                  (Inl e, w3) \<Rightarrow> (Inl e, client_release w3)
                | (Inr _, w3) \<Rightarrow> (Inl error, client_release w3))))"

section \<open>The controller\<close>

datatype response_body =
    ErrorBody string
  | SuccessBody string "SplitResult list"

record Response =
  status :: nat
  body :: response_body

definition error_response :: "js_error \<Rightarrow> Response" where
  "error_response error = \<lparr>status = 400, body = ErrorBody (message error)\<rparr>"

text \<open>Step 3 of \<open>splitBill\<close>: the calculator that the split type selects.\<close>

definition calculateSplits ::
  "Env \<Rightarrow> SplitRequest \<Rightarrow> ItemMap \<Rightarrow> (js_error + ItemMap list) option" where
  "calculateSplits env req items =
     (if splitType req = Some ''portion'' then
        (case count req of
           Some c \<Rightarrow> calculatePortionSplit (heap_holds env) items c
         | None \<Rightarrow> Some (Inl (RangeError ''Invalid array length'')))
      else if splitType req = Some ''percentage'' then
        (case percentages req of
           Some ps \<Rightarrow> Some (Inr (calculatePercentageSplit items ps))
         | None \<Rightarrow> Some (Inl (TypeError ''Cannot read properties of undefined'')))
      else Some (Inl (TypeError ''Cannot read properties of undefined'')))"

text \<open>
  \<open>splitBill\<close>, with the response it sends: none when the process ends in the
  calculator. Every error thrown in its \<open>try\<close> is answered with the status 400; the
  order that is not found is answered with 404 from inside the \<open>try\<close>. The branches
  for an absent field after the validation cannot be taken: the validation has
  rejected such a request.
\<close>

definition splitBill ::
  "revision \<Rightarrow> Env \<Rightarrow> SplitRequest \<Rightarrow> World \<Rightarrow> Response option \<times> World" where
  "splitBill rv env req w =
     (case validateSplitRequest req of
        Inl error \<Rightarrow> (Some (error_response error), w)
      | Inr _ \<Rightarrow>
          (case (tableId req, orderId req) of
             (Some tid, Some oid) \<Rightarrow>
               (case query_select env oid tid w of
                  (Inl error, w1) \<Rightarrow> (Some (error_response error), w1)
                | (Inr [], w1) \<Rightarrow>
                    (Some \<lparr>status = 404, body = ErrorBody ''Order not found''\<rparr>, w1)
                | (Inr (order # _), w1) \<Rightarrow>
                    (case calculateSplits env req (json_data order) of
                       None \<Rightarrow> (None, w1)
                     | Some (Inl error) \<Rightarrow> (Some (error_response error), w1)
                     | Some (Inr splits) \<Rightarrow>
                         (case createSplitOrders rv env order splits tid oid w1 of
                            (Inl error, w2) \<Rightarrow> (Some (error_response error), w2)
                          | (Inr results, w2) \<Rightarrow>
                              (Some \<lparr>status = 200,
                                     body = SuccessBody ''Bill split successful'' results\<rparr>,
                               w2))))
           | _ \<Rightarrow> (Some (error_response err_required), w)))"

section \<open>Notions for stating the properties\<close>

text \<open>
  The rows with the id of the original order; the rows that the inserts for the splits
  add to a table, from index \<open>i\<close> on; a result entry that is the derived order of an
  index and a split. Then the events of a run: those that can precede a successful
  commit inside the transaction (no completion, no rollback, no successful commit), the
  successful inserts of \<open>n\<close> splits, what follows the completion in either copy of
  the controller; the table that a transaction begun in a world reads; and the
  condition on the collaborators under which the transaction commits.
\<close>

definition originalRows :: "string \<Rightarrow> OrderRow list \<Rightarrow> OrderRow list" where
  "originalRows originalOrderId tbl = filter (\<lambda>r. order_id r = originalOrderId) tbl"

fun derivedRows :: "string \<Rightarrow> OrderRow list \<Rightarrow> nat \<Rightarrow> ItemMap list \<Rightarrow> OrderRow list" where
  "derivedRows oid tbl i [] = []"
| "derivedRows oid tbl i (s # rest) =
     clone_rows (splitOrderId oid i) s oid tbl @ derivedRows oid tbl (i + 1) rest"

definition derived :: "string \<Rightarrow> nat \<times> ItemMap \<Rightarrow> SplitResult \<Rightarrow> bool" where
  "derived oid js r \<longleftrightarrow>
     r_orderId r = splitOrderId oid (fst js) \<and> r_items r = snd js \<and>
     order_id (billData r) = splitOrderId oid (fst js) \<and> json_data (billData r) = snd js"

fun is_insert :: "event \<Rightarrow> bool" where
  "is_insert (Insert _ _) = True"
| "is_insert _ = False"

definition inserts_succeed :: "Env \<Rightarrow> string \<Rightarrow> OrderRow list \<Rightarrow> ItemMap list \<Rightarrow> bool" where
  "inserts_succeed env oid tbl splits \<longleftrightarrow>
     (\<forall>i < length splits. insert_error env i = None) \<and>
     (splits = [] \<or> originalRows oid tbl \<noteq> [])"

fun before_commit :: "event \<Rightarrow> bool" where
  "before_commit (CompleteOrder _ _ _ _) = False"
| "before_commit (Rollback _) = False"
| "before_commit (Commit ok) = (\<not> ok)"
| "before_commit _ = True"

definition txn_table :: "World \<Rightarrow> OrderRow list" where
  "txn_table w = (case pending w of None \<Rightarrow> committed w | Some tbl \<Rightarrow> tbl)"

definition transaction_commits :: "Env \<Rightarrow> string \<Rightarrow> ItemMap list \<Rightarrow> World \<Rightarrow> bool" where
  "transaction_commits env oid splits w \<longleftrightarrow>
     begin_error env = None \<and> inserts_succeed env oid (txn_table w) splits \<and>
     commit_error env = None"

definition completion_event :: "OrderRow \<Rightarrow> event" where
  "completion_event originalOrder =
     CompleteOrder (restaurant_id originalOrder) (table_id originalOrder) 0 ''split''"

definition insert_events :: "string \<Rightarrow> nat \<Rightarrow> event list" where
  "insert_events oid n = map (\<lambda>i. Insert (splitOrderId oid i) True) [0 ..< n]"

fun completion_checks :: "revision \<Rightarrow> event list" where
  "completion_checks UtilCompletion = []"
| "completion_checks ControllerCompletion = [CheckOrders, CheckCompleted]"

definition completion_throws :: "revision \<Rightarrow> Env \<Rightarrow> bool" where
  "completion_throws rv env \<longleftrightarrow>
     rv = UtilCompletion \<and> (case completion env of Threw _ \<Rightarrow> True | _ \<Rightarrow> False)"

fun not_completion :: "event \<Rightarrow> bool" where
  "not_completion (CompleteOrder _ _ _ _) = False"
| "not_completion _ = True"

definition closing_events :: "revision \<Rightarrow> Env \<Rightarrow> event list" where
  "closing_events rv env =
     (if completion_throws rv env then [Rollback (rollback_error env = None), Release]
      else [Release])"

section \<open>Example inputs\<close>

text \<open>
  A store that accepts every statement, with an engine whose heap holds a thousand
  splits, one that rejects the second insert, and one whose completion of the original
  order throws; a table with one order, an empty table, and a request for a split of
  that order in 60 and 40 percent. Then a request whose percentages are the doubles
  written \<open>100.00999999999999\<close>, \<open>7e-15\<close> and \<open>7e-15\<close>.
\<close>

definition env_ok :: Env where
  "env_ok = \<lparr>select_error = None, connect_error = None, begin_error = None,
     insert_error = (\<lambda>i. None), commit_error = None, rollback_error = None,
     completion = Completed, completion_effect = (\<lambda>tbl. tbl),
     heap_holds = (\<lambda>items n. n \<le> 1000)\<rparr>"

definition env_insert_fails :: Env where
  "env_insert_fails = env_ok\<lparr>insert_error := (\<lambda>i. if i = 1 then Some (Error ''insert failed'') else None)\<rparr>"

definition env_completion_throws :: Env where
  "env_completion_throws = env_ok\<lparr>completion := Threw (Error ''completion failed'')\<rparr>"

definition example_order :: OrderRow where
  "example_order = \<lparr>order_id = ''order-123'', restaurant_id = ''rest-9'', table_id = ''table-1'',
     json_data = example_items, passthrough = ''invoice 77''\<rparr>"

definition example_world :: World where
  "example_world = \<lparr>committed = [example_order], pending = None, log = []\<rparr>"

definition empty_world :: World where
  "empty_world = \<lparr>committed = [], pending = None, log = []\<rparr>"

definition example_request :: SplitRequest where
  "example_request = \<lparr>tableId = Some ''table-1'', orderId = Some ''order-123'',
     splitType = Some ''percentage'', count = None, percentages = Some [60, 40]\<rparr>"

definition boundary_request :: SplitRequest where
  "boundary_request = example_request\<lparr>percentages :=
     Some [439848631575511 / 4398046511104,
           4436777100798803 / 633825300114114700748351602688,
           4436777100798803 / 633825300114114700748351602688]\<rparr>"

definition example_splits :: "ItemMap list" where
  "example_splits = calculatePercentageSplit example_items [60, 40]"

section \<open>Properties of the split calculators\<close>

lemma update_fresh: "k \<notin> fst ` set al \<Longrightarrow> AList.update k v al = al @ [(k, v)]"
  by (induction al) auto

text \<open>
  What the loop over the entries builds: the entries under every id but \<open>__proto__\<close>,
  in their order.
\<close>

lemma fold_set_property:
  "distinct (map fst items) \<Longrightarrow> fst ` set items \<inter> fst ` set acc = {} \<Longrightarrow>
   fold (\<lambda>(k, v) s. set_property k (f v) s) items acc =
     acc @ map (\<lambda>(k, v). (k, f v)) (filter (\<lambda>e. fst e \<noteq> ''__proto__'') items)"
proof (induction items arbitrary: acc)
  case Nil
  then show ?case by simp
next
  case (Cons p items)
  obtain k v where p: "p = (k, v)" by (cases p)
  have fresh: "k \<notin> fst ` set acc" using Cons.prems(2) p by auto
  have d: "distinct (map fst items)" using Cons.prems(1) by simp
  show ?case
  proof (cases "k = ''__proto__''")
    case True
    have disj: "fst ` set items \<inter> fst ` set acc = {}" using Cons.prems(2) by auto
    show ?thesis
      using Cons.IH [OF d disj] True by (simp add: p set_property_def)
  next
    case False
    have disj: "fst ` set items \<inter> fst ` set (acc @ [(k, f v)]) = {}"
      using Cons.prems p by auto
    show ?thesis
      using Cons.IH [OF d disj] False by (simp add: p set_property_def update_fresh [OF fresh])
  qed
qed

lemma fold_map_set_property_replicate:
  "fold (\<lambda>(k, v) ss. map (set_property k (f v)) ss) items (replicate n acc) =
   replicate n (fold (\<lambda>(k, v) s. set_property k (f v) s) items acc)"
  by (induction items arbitrary: acc) (auto)

lemma plain_filter: "plain_ids items \<Longrightarrow> filter (\<lambda>e. fst e \<noteq> ''__proto__'') items = items"
  by (force simp: plain_ids_def filter_id_conv)

lemma percentage_share:
  "wf_items items \<Longrightarrow> plain_ids items \<Longrightarrow>
   calculatePercentageSplit items ps = map (\<lambda>p. mapItems (percentageItem p) items) ps"
  unfolding calculatePercentageSplit_def wf_items_def mapItems_def
  by (simp add: plain_filter
      fold_set_property [where acc = "[]" and f = "percentageItem p" for p, simplified])

lemma portion_share:
  "wf_items items \<Longrightarrow> plain_ids items \<Longrightarrow> valid_array_length n \<Longrightarrow>
   hp items (nat \<lfloor>n\<rfloor>) \<Longrightarrow>
   calculatePortionSplit hp items n =
     Some (Inr (replicate (nat \<lfloor>n\<rfloor>) (mapItems (portionItem n) items)))"
  unfolding calculatePortionSplit_def wf_items_def mapItems_def
  by (simp add: plain_filter fold_map_set_property_replicate [where f = "portionItem n"]
      fold_set_property [where acc = "[]" and f = "portionItem n", simplified])

lemma map_of_mapItems:
  "wf_items items \<Longrightarrow> (k, l) \<in> set items \<Longrightarrow> map_of (mapItems f items) k = Some (f l)"
  unfolding wf_items_def mapItems_def
  by (induction items) (auto simp: rev_image_eqI)

lemma same_structure_mapItems:
  assumes "\<And>l. i_rest (f l) = i_rest l"
    and "\<And>l. list_all2 same_customization (customizations l) (customizations (f l))"
  shows "same_structure items (mapItems f items)"
  unfolding same_structure_def mapItems_def list_all2_map2
  by (rule list_all2_refl) (auto simp: same_item_def assms)

lemma same_portionItem:
  "list_all2 same_customization (customizations l) (customizations (portionItem c l))"
  unfolding portionItem_def by (simp add: list_all2_map2 same_customization_def portionCustomization_def list_all2_refl)

lemma same_percentageItem:
  "list_all2 same_customization (customizations l) (customizations (percentageItem p l))"
  unfolding percentageItem_def by (simp add: list_all2_map2 same_customization_def percentageCustomization_def list_all2_refl)

lemma i_rest_portionItem: "i_rest (portionItem c l) = i_rest l"
  by (simp add: portionItem_def)

lemma i_rest_percentageItem: "i_rest (percentageItem p l) = i_rest l"
  by (simp add: percentageItem_def)

text \<open>
  For item maps without the id \<open>__proto__\<close>, the calculators preserve the structure:
  every share lists the same item ids in the same order as the input, every item keeps
  its other fields and the number and order of its customizations, and every
  customization keeps every field other than \<open>qty\<close> and \<open>originalPrice\<close>.
\<close>

lemma structure_preserved_plain:
  assumes "wf_items items" and "plain_ids items"
  shows "(\<forall>shares. calculatePortionSplit hp items n = Some (Inr shares) \<longrightarrow>
            (\<forall>s \<in> set shares. same_structure items s)) \<and>
         (\<forall>s \<in> set (calculatePercentageSplit items ps). same_structure items s)"
proof (intro conjI allI impI ballI)
  fix shares s
  assume r: "calculatePortionSplit hp items n = Some (Inr shares)" and s: "s \<in> set shares"
  have v: "valid_array_length n" "hp items (nat \<lfloor>n\<rfloor>)"
    using r by (auto simp: calculatePortionSplit_def split: if_splits)
  have "s = mapItems (portionItem n) items"
    using r s portion_share [of items n hp, OF assms v] by auto
  then show "same_structure items s"
    by (simp add: same_structure_mapItems [OF i_rest_portionItem same_portionItem])
next
  fix s
  assume "s \<in> set (calculatePercentageSplit items ps)"
  then obtain p where "s = mapItems (percentageItem p) items"
    using percentage_share [OF assms] by auto
  then show "same_structure items s"
    by (simp add: same_structure_mapItems [OF i_rest_percentageItem same_percentageItem])
qed

text \<open>
  Claim C10, as the calculators run on a well-formed item map whose one item has the id
  \<open>__proto__\<close>: the assignment of the item to a split sets the prototype of the split,
  so every share of either calculator is the empty object. The item is dropped, and
  the share has not the ids of the input. (For item maps without that id the claim
  holds: lemma \<open>structure_preserved_plain\<close>.)
\<close>

theorem proto_item_dropped:
  "wf_items proto_items \<and> map fst proto_items = [''__proto__''] \<and>
   calculatePercentageSplit proto_items [60, 40] = [[], []] \<and>
   calculatePortionSplit (heap_holds env_ok) proto_items 2 = Some (Inr [[], []]) \<and>
   \<not> same_structure proto_items []"
  by (simp add: wf_items_def proto_items_def calculatePercentageSplit_def
      calculatePortionSplit_def valid_array_length_def is_integer_def env_ok_def
      set_property_def same_structure_def numeral_2_eq_2)

lemma portionItem_customizations:
  "list_all2 (\<lambda>c c'. qty c' = qty c / n \<and> price c' = price c \<and> originalPrice c' = Some (price c))
     (customizations l) (customizations (portionItem n l))"
  unfolding portionItem_def
  by (simp add: list_all2_map2 list_all2_refl portionCustomization_def)

lemma percentageItem_customizations:
  "list_all2 (\<lambda>c c'. qty c' = qty c * p / 100 \<and> price c' = price c \<and> originalPrice c' = Some (price c))
     (customizations l) (customizations (percentageItem p l))"
  unfolding percentageItem_def
  by (simp add: list_all2_map2 list_all2_refl percentageCustomization_def)

lemma qtyAt_portion:
  "wf_items items \<Longrightarrow> (k, l) \<in> set items \<Longrightarrow> j < length (customizations l) \<Longrightarrow>
   qtyAt (mapItems (portionItem n) items) k j = qty (customizations l ! j) / n"
  by (simp add: qtyAt_def map_of_mapItems portionItem_def portionCustomization_def)

lemma qtyAt_percentage:
  "wf_items items \<Longrightarrow> (k, l) \<in> set items \<Longrightarrow> j < length (customizations l) \<Longrightarrow>
   qtyAt (mapItems (percentageItem p) items) k j = qty (customizations l ! j) * p / 100"
  by (simp add: qtyAt_def map_of_mapItems percentageItem_def percentageCustomization_def)

lemma integer_count: "is_integer n \<Longrightarrow> 0 \<le> n \<Longrightarrow> of_nat (nat \<lfloor>n\<rfloor>) = n"
  unfolding is_integer_def
  by (metis of_nat_nat zero_le_floor)

text \<open>
  Claim C3, amended. For every well-formed item map without the id \<open>__proto__\<close> and
  every integer count from \<open>1\<close> to \<open>2^32 - 1\<close> of which the heap holds that many
  splits, \<open>calculatePortionSplit\<close> returns exactly count shares; in every share every
  customization has the original quantity divided by the count, the unchanged price,
  and the price before the split as \<open>originalPrice\<close>; so the quantities of the shares
  add up to the original quantity, in exact arithmetic. For every count above
  \<open>2^32 - 1\<close>, \<open>Array(count)\<close> throws; for an integer count up to there of which the
  heap does not hold that many splits, the process ends and there is no share.
\<close>

theorem portion_split:
  "(wf_items items \<and> plain_ids items \<and> is_integer n \<and> 1 \<le> n \<and> n \<le> 4294967295 \<and>
    hp items (nat \<lfloor>n\<rfloor>) \<longrightarrow>
      (\<exists>shares. calculatePortionSplit hp items n = Some (Inr shares) \<and>
         length shares = nat \<lfloor>n\<rfloor> \<and>
         (\<forall>s \<in> set shares. \<forall>(itemId, l) \<in> set items. \<exists>l'. map_of s itemId = Some l' \<and>
            list_all2 (\<lambda>c c'. qty c' = qty c / n \<and> price c' = price c \<and>
                               originalPrice c' = Some (price c))
              (customizations l) (customizations l')) \<and>
         (\<forall>(itemId, l) \<in> set items. \<forall>k < length (customizations l).
            (\<Sum>s\<leftarrow>shares. qtyAt s itemId k) = qty (customizations l ! k)))) \<and>
   (4294967295 < n \<longrightarrow>
      calculatePortionSplit hp items n = Some (Inl (RangeError ''Invalid array length''))) \<and>
   (is_integer n \<and> 1 \<le> n \<and> n \<le> 4294967295 \<and> \<not> hp items (nat \<lfloor>n\<rfloor>) \<longrightarrow>
      calculatePortionSplit hp items n = None)"
proof (intro conjI impI)
  assume h: "wf_items items \<and> plain_ids items \<and> is_integer n \<and> 1 \<le> n \<and> n \<le> 4294967295 \<and>
    hp items (nat \<lfloor>n\<rfloor>)"
  then have wf: "wf_items items" and pl: "plain_ids items" and int: "is_integer n"
    and lo: "1 \<le> n" and hi: "n \<le> 4294967295" and heap: "hp items (nat \<lfloor>n\<rfloor>)"
    by simp_all
  let ?S = "mapItems (portionItem n) items"
  let ?shares = "replicate (nat \<lfloor>n\<rfloor>) ?S"
  have v: "valid_array_length n"
    using int lo hi by (simp add: valid_array_length_def)
  have eq: "calculatePortionSplit hp items n = Some (Inr ?shares)"
    by (rule portion_share [of items n hp, OF wf pl v heap])
  have len: "length ?shares = nat \<lfloor>n\<rfloor>" by simp
  have each: "\<forall>s \<in> set ?shares. \<forall>(itemId, l) \<in> set items. \<exists>l'. map_of s itemId = Some l' \<and>
        list_all2 (\<lambda>c c'. qty c' = qty c / n \<and> price c' = price c \<and>
                           originalPrice c' = Some (price c))
          (customizations l) (customizations l')"
    using map_of_mapItems [OF wf] portionItem_customizations by fastforce
  have cnt: "of_nat (nat \<lfloor>n\<rfloor>) = n" using integer_count [OF int] lo by simp
  have n0: "n \<noteq> 0" using lo by simp
  have total: "\<forall>(itemId, l) \<in> set items. \<forall>k < length (customizations l).
        (\<Sum>s\<leftarrow>?shares. qtyAt s itemId k) = qty (customizations l ! k)"
  proof (intro ballI allI impI, clarify)
    fix itemId l k
    assume m: "(itemId, l) \<in> set items" and k: "k < length (customizations l)"
    have "(\<Sum>s\<leftarrow>?shares. qtyAt s itemId k) = of_nat (nat \<lfloor>n\<rfloor>) * qtyAt ?S itemId k"
      by (simp add: sum_list_replicate)
    also have "\<dots> = n * (qty (customizations l ! k) / n)"
      by (simp only: cnt qtyAt_portion [OF wf m k])
    also have "\<dots> = qty (customizations l ! k)" using n0 by simp
    finally show "(\<Sum>s\<leftarrow>?shares. qtyAt s itemId k) = qty (customizations l ! k)" .
  qed
  show "\<exists>shares. calculatePortionSplit hp items n = Some (Inr shares) \<and>
         length shares = nat \<lfloor>n\<rfloor> \<and>
         (\<forall>s \<in> set shares. \<forall>(itemId, l) \<in> set items. \<exists>l'. map_of s itemId = Some l' \<and>
            list_all2 (\<lambda>c c'. qty c' = qty c / n \<and> price c' = price c \<and>
                               originalPrice c' = Some (price c))
              (customizations l) (customizations l')) \<and>
         (\<forall>(itemId, l) \<in> set items. \<forall>k < length (customizations l).
            (\<Sum>s\<leftarrow>shares. qtyAt s itemId k) = qty (customizations l ! k))"
    using eq len each total by blast
next
  assume "4294967295 < n"
  then show "calculatePortionSplit hp items n = Some (Inl (RangeError ''Invalid array length''))"
    by (simp add: calculatePortionSplit_def valid_array_length_def)
next
  assume "is_integer n \<and> 1 \<le> n \<and> n \<le> 4294967295 \<and> \<not> hp items (nat \<lfloor>n\<rfloor>)"
  then show "calculatePortionSplit hp items n = None"
    by (simp add: calculatePortionSplit_def valid_array_length_def)
qed

theorem portion_split_witness:
  "wf_items example_items \<and> plain_ids example_items \<and> is_integer 3 \<and> (1::rat) \<le> 3 \<and>
   (3::rat) \<le> 4294967295 \<and> heap_holds env_ok example_items (nat \<lfloor>3::rat\<rfloor>) \<and>
   (\<exists>shares. calculatePortionSplit (heap_holds env_ok) example_items 3 = Some (Inr shares) \<and>
      length shares = 3 \<and> (\<Sum>s\<leftarrow>shares. qtyAt s ''pizza'' 0) = 10)"
proof -
  have h1: "wf_items example_items" by (simp add: wf_items_def example_items_def)
  have h2: "plain_ids example_items" by (simp add: plain_ids_def example_items_def)
  have h3: "is_integer 3" by (simp add: is_integer_def)
  have h4: "heap_holds env_ok example_items (nat \<lfloor>3::rat\<rfloor>)" by (simp add: env_ok_def)
  have "wf_items example_items \<and> plain_ids example_items \<and> is_integer 3 \<and> (1::rat) \<le> 3 \<and>
      (3::rat) \<le> 4294967295 \<and> heap_holds env_ok example_items (nat \<lfloor>3::rat\<rfloor>)"
    using h1 h2 h3 h4 by simp
  with portion_split [of example_items 3 "heap_holds env_ok"]
  obtain shares where s: "calculatePortionSplit (heap_holds env_ok) example_items 3 = Some (Inr shares)"
    and l: "length shares = nat \<lfloor>3::rat\<rfloor>"
    and t: "\<forall>(itemId, l) \<in> set example_items. \<forall>k < length (customizations l).
        (\<Sum>s\<leftarrow>shares. qtyAt s itemId k) = qty (customizations l ! k)"
    by blast
  have "(\<Sum>s\<leftarrow>shares. qtyAt s ''pizza'' 0) = 10"
    using t by (simp add: example_items_def)
  then show ?thesis using h1 h2 h3 h4 s l by simp
qed

theorem portion_split_counterexample:
  "calculatePortionSplit (heap_holds env_ok) example_items 4294967296
     = Some (Inl (RangeError ''Invalid array length'')) \<and>
   calculatePortionSplit (heap_holds env_ok) example_items 4294967295 = None"
  by (simp add: calculatePortionSplit_def valid_array_length_def is_integer_def env_ok_def)

lemma sum_list_scaled: "(\<Sum>p\<leftarrow>ps. q * p / 100) = q * sum_list ps / (100::rat)"
  by (induction ps) (simp_all add: algebra_simps add_divide_distrib)

lemma deviation_scaled:
  fixes q S :: rat
  shows "\<bar>q * S / 100 - q\<bar> = \<bar>q\<bar> * (\<bar>S - 100\<bar> / 100)"
proof -
  have "q * S / 100 - q = q * ((S - 100) / 100)"
    by (simp add: algebra_simps diff_divide_distrib)
  then have "\<bar>q * S / 100 - q\<bar> = \<bar>q * ((S - 100) / 100)\<bar>"
    by (rule arg_cong)
  also have "\<dots> = \<bar>q\<bar> * (\<bar>S - 100\<bar> / 100)"
    by (simp only: abs_mult abs_divide abs_numeral)
  finally show ?thesis .
qed

text \<open>
  For item maps without the id \<open>__proto__\<close> and percentages above zero whose exact sum
  is within \<open>0.01\<close> of \<open>100\<close>: one share for every percentage, in the order of the list;
  every customization of share \<open>i\<close> has the quantity \<open>qty * p / 100\<close> for the
  percentage \<open>p\<close> at index \<open>i\<close>, and none is filtered out; the quantities of the shares
  add up to \<open>qty * sum / 100\<close>, which is within \<open>0.0001 * qty\<close> of \<open>qty\<close>.
\<close>

lemma percentage_split_plain:
  assumes wf: "wf_items items" and pl: "plain_ids items" and pos: "\<forall>p \<in> set ps. 0 < p"
    and tol: "\<bar>sum_list ps - 100\<bar> \<le> 1 / 100"
  shows "length (calculatePercentageSplit items ps) = length ps \<and>
     (\<forall>i < length ps. \<forall>(itemId, l) \<in> set items.
        \<exists>l'. map_of (calculatePercentageSplit items ps ! i) itemId = Some l' \<and>
          list_all2 (\<lambda>c c'. qty c' = qty c * (ps ! i) / 100 \<and> price c' = price c \<and>
                             originalPrice c' = Some (price c))
            (customizations l) (customizations l')) \<and>
     (\<forall>(itemId, l) \<in> set items. \<forall>k < length (customizations l).
        (\<Sum>s\<leftarrow>calculatePercentageSplit items ps. qtyAt s itemId k)
          = qty (customizations l ! k) * sum_list ps / 100 \<and>
        \<bar>(\<Sum>s\<leftarrow>calculatePercentageSplit items ps. qtyAt s itemId k) - qty (customizations l ! k)\<bar>
          \<le> \<bar>qty (customizations l ! k)\<bar> * (1 / 10000))"
proof -
  have eq: "calculatePercentageSplit items ps = map (\<lambda>p. mapItems (percentageItem p) items) ps"
    by (rule percentage_share [OF wf pl])
  have each: "\<forall>i < length ps. \<forall>(itemId, l) \<in> set items.
        \<exists>l'. map_of (calculatePercentageSplit items ps ! i) itemId = Some l' \<and>
          list_all2 (\<lambda>c c'. qty c' = qty c * (ps ! i) / 100 \<and> price c' = price c \<and>
                             originalPrice c' = Some (price c))
            (customizations l) (customizations l')"
    using map_of_mapItems [OF wf] percentageItem_customizations by (fastforce simp: eq)
  have total: "\<forall>(itemId, l) \<in> set items. \<forall>k < length (customizations l).
        (\<Sum>s\<leftarrow>calculatePercentageSplit items ps. qtyAt s itemId k)
          = qty (customizations l ! k) * sum_list ps / 100 \<and>
        \<bar>(\<Sum>s\<leftarrow>calculatePercentageSplit items ps. qtyAt s itemId k) - qty (customizations l ! k)\<bar>
          \<le> \<bar>qty (customizations l ! k)\<bar> * (1 / 10000)"
  proof (intro ballI allI impI, clarify)
    fix itemId l k
    assume m: "(itemId, l) \<in> set items" and k: "k < length (customizations l)"
    let ?q = "qty (customizations l ! k)"
    have s: "(\<Sum>s\<leftarrow>calculatePercentageSplit items ps. qtyAt s itemId k) = ?q * sum_list ps / 100"
      by (simp add: eq comp_def qtyAt_percentage [OF wf m k] sum_list_scaled)
    have "\<bar>?q * sum_list ps / 100 - ?q\<bar> = \<bar>?q\<bar> * (\<bar>sum_list ps - 100\<bar> / 100)"
      by (rule deviation_scaled)
    also have "\<dots> \<le> \<bar>?q\<bar> * (1 / 10000)"
      using tol by (intro mult_left_mono) simp_all
    finally have "\<bar>?q * sum_list ps / 100 - ?q\<bar> \<le> \<bar>?q\<bar> * (1 / 10000)" .
    then show "(\<Sum>s\<leftarrow>calculatePercentageSplit items ps. qtyAt s itemId k) = ?q * sum_list ps / 100 \<and>
      \<bar>(\<Sum>s\<leftarrow>calculatePercentageSplit items ps. qtyAt s itemId k) - ?q\<bar> \<le> \<bar>?q\<bar> * (1 / 10000)"
      by (simp only: s simp_thms)
  qed
  show ?thesis using eq each total by simp
qed

text \<open>
  Claim C4, as \<open>calculatePercentageSplit\<close> runs on a well-formed item map whose one
  item has the id \<open>__proto__\<close> and the quantity \<open>20\<close>, with the percentages 60 and 40:
  it returns two shares, both the empty object, so the item has no quantity in any
  share and the quantities of the shares add up to \<open>0\<close>, not to \<open>20\<close>. (For item maps
  without that id the claim holds: lemma \<open>percentage_split_plain\<close>.)
\<close>

theorem percentage_split_drops_proto_item:
  "wf_items proto_items \<and> list_all (\<lambda>p. 0 < p) [60, 40 :: rat] \<and>
   sum_list [60, 40 :: rat] = 100 \<and>
   qtyAt proto_items ''__proto__'' 0 = 20 \<and>
   calculatePercentageSplit proto_items [60, 40] = [[], []] \<and>
   map (\<lambda>s. map_of s ''__proto__'') (calculatePercentageSplit proto_items [60, 40])
     = [None, None] \<and>
   (\<Sum>s\<leftarrow>calculatePercentageSplit proto_items [60, 40]. qtyAt s ''__proto__'' 0) = 0"
  by (simp add: wf_items_def proto_items_def calculatePercentageSplit_def set_property_def
      qtyAt_def)

section \<open>Properties of the transaction\<close>

lemma splitOrderId_neq: "splitOrderId oid i \<noteq> oid"
  by (simp add: splitOrderId_def)

lemma clone_rows_ids: "r \<in> set (clone_rows nid s oid tbl) \<Longrightarrow> order_id r = nid \<and> json_data r = s"
  by (auto simp: clone_rows_def)

lemma clone_rows_append:
  "clone_rows nid s oid (tbl @ clone_rows (splitOrderId oid i) s' oid tbl') = clone_rows nid s oid tbl"
  by (simp add: clone_rows_def filter_empty_conv splitOrderId_neq)

lemma clone_rows_original: "clone_rows nid s oid tbl = [] \<longleftrightarrow> originalRows oid tbl = []"
  by (simp add: clone_rows_def originalRows_def)

lemma originalRows_append:
  "originalRows oid (tbl @ clone_rows (splitOrderId oid i) s' oid tbl') = originalRows oid tbl"
  by (simp add: clone_rows_def originalRows_def filter_empty_conv splitOrderId_neq)

lemma derivedRows_append:
  "derivedRows oid (tbl @ clone_rows (splitOrderId oid i) s' oid tbl') j splits = derivedRows oid tbl j splits"
  by (induction splits arbitrary: j) (simp_all add: clone_rows_append)

lemma query_insert_cases:
  assumes "pending w = Some tbl"
  shows "query_insert env i nid s oid w =
     (case insert_error env i of
        Some e \<Rightarrow> (Inl e, emit (Insert nid False) w)
      | None \<Rightarrow> (Inr (clone_rows nid s oid tbl),
                 emit (Insert nid True) (w\<lparr>pending := Some (tbl @ clone_rows nid s oid tbl)\<rparr>)))"
  using assms by (simp add: query_insert_def Let_def split: option.splits)

lemma emit_fields [simp]:
  "committed (emit e w) = committed w" "pending (emit e w) = pending w"
  "log (emit e w) = log w @ [e]"
  by (simp_all add: emit_def)

lemma insertLoop_Cons:
  assumes "pending w = Some tbl"
  shows "insertLoop env oid (s # rest) i results w =
     (case insert_error env i of
        Some e \<Rightarrow> (Inl e, emit (Insert (splitOrderId oid i) False) w)
      | None \<Rightarrow>
          (case clone_rows (splitOrderId oid i) s oid tbl of
             [] \<Rightarrow> (Inl (Error (''Failed to create split order '' @ splitOrderId oid i)),
                    emit (Insert (splitOrderId oid i) True) (w\<lparr>pending := Some tbl\<rparr>))
           | newOrder # others \<Rightarrow>
               insertLoop env oid rest (i + 1)
                 (results @ [\<lparr>r_orderId = splitOrderId oid i, r_items = s, billData = newOrder\<rparr>])
                 (emit (Insert (splitOrderId oid i) True)
                    (w\<lparr>pending := Some (tbl @ clone_rows (splitOrderId oid i) s oid tbl)\<rparr>))))"
  by (simp add: query_insert_cases [OF assms] Let_def split: option.splits list.splits)

lemma insertLoop_state:
  assumes "pending w = Some tbl" and "insertLoop env oid splits i results w = (r, w')"
  shows "committed w' = committed w \<and> pending w' \<noteq> None \<and>
         (\<forall>out. r = Inr out \<longrightarrow> pending w' = Some (tbl @ derivedRows oid tbl i splits))"
  using assms
proof (induction splits arbitrary: i results w tbl)
  case Nil
  then show ?case by auto
next
  case (Cons s rest)
  let ?nid = "splitOrderId oid i"
  let ?rows = "clone_rows ?nid s oid tbl"
  let ?w1 = "emit (Insert ?nid True) (w\<lparr>pending := Some (tbl @ ?rows)\<rparr>)"
  note unf = insertLoop_Cons [OF Cons.prems(1), of env oid s rest i results]
  show ?case
  proof (cases "insert_error env i")
    case (Some e)
    then show ?thesis using Cons.prems unf by auto
  next
    case None
    show ?thesis
    proof (cases ?rows)
      case Nil
      then show ?thesis using Cons.prems unf None by auto
    next
      case (Cons newOrder others)
      have p1: "pending ?w1 = Some (tbl @ ?rows)" by simp
      have step: "insertLoop env oid rest (i + 1)
          (results @ [\<lparr>r_orderId = ?nid, r_items = s, billData = newOrder\<rparr>]) ?w1 = (r, w')"
        using Cons.prems(2) unf None Cons by simp
      from Cons.IH [OF p1 step] show ?thesis
        by (simp add: derivedRows_append)
    qed
  qed
qed


lemma insertLoop_log:
  assumes "pending w = Some tbl" and "insertLoop env oid splits i results w = (r, w')"
  shows "\<exists>tr. log w' = log w @ tr \<and> list_all is_insert tr \<and>
     (\<forall>out. r = Inr out \<longrightarrow>
        tr = map (\<lambda>j. Insert (splitOrderId oid (i + j)) True) [0 ..< length splits])"
  using assms
proof (induction splits arbitrary: i results w tbl)
  case Nil
  then show ?case by auto
next
  case (Cons s rest)
  let ?nid = "splitOrderId oid i"
  let ?rows = "clone_rows ?nid s oid tbl"
  let ?w1 = "emit (Insert ?nid True) (w\<lparr>pending := Some (tbl @ ?rows)\<rparr>)"
  note unf = insertLoop_Cons [OF Cons.prems(1), of env oid s rest i results]
  show ?case
  proof (cases "insert_error env i")
    case (Some e)
    then show ?thesis using Cons.prems unf by auto
  next
    case None
    show ?thesis
    proof (cases ?rows)
      case Nil
      then show ?thesis using Cons.prems unf None by auto
    next
      case (Cons newOrder others)
      have p1: "pending ?w1 = Some (tbl @ ?rows)" by simp
      have step: "insertLoop env oid rest (i + 1)
          (results @ [\<lparr>r_orderId = ?nid, r_items = s, billData = newOrder\<rparr>]) ?w1 = (r, w')"
        using Cons.prems(2) unf None Cons by simp
      from Cons.IH [OF p1 step] obtain tr where tr: "log w' = log ?w1 @ tr" "list_all is_insert tr"
        "\<forall>out. r = Inr out \<longrightarrow>
           tr = map (\<lambda>j. Insert (splitOrderId oid (i + 1 + j)) True) [0 ..< length rest]"
        by blast
      have "map (\<lambda>j. Insert (splitOrderId oid (i + j)) True) [0 ..< length (s # rest)]
          = Insert ?nid True # map (\<lambda>j. Insert (splitOrderId oid (i + 1 + j)) True) [0 ..< length rest]"
        by (simp add: map_upt_Suc del: upt_Suc)
      then have "log w' = log w @ (Insert ?nid True # tr) \<and>
          list_all is_insert (Insert ?nid True # tr) \<and>
          (\<forall>out. r = Inr out \<longrightarrow> Insert ?nid True # tr =
             map (\<lambda>j. Insert (splitOrderId oid (i + j)) True) [0 ..< length (s # rest)])"
        using tr by simp
      then show ?thesis by blast
    qed
  qed
qed

lemma insertLoop_results:
  assumes "pending w = Some tbl" and "insertLoop env oid splits i results w = (Inr out, w')"
  shows "\<exists>new. out = results @ new \<and>
           list_all2 (derived oid) (zip [i ..< i + length splits] splits) new"
  using assms
proof (induction splits arbitrary: i results w tbl)
  case Nil
  then show ?case by auto
next
  case (Cons s rest)
  let ?nid = "splitOrderId oid i"
  let ?rows = "clone_rows ?nid s oid tbl"
  let ?w1 = "emit (Insert ?nid True) (w\<lparr>pending := Some (tbl @ ?rows)\<rparr>)"
  note unf = insertLoop_Cons [OF Cons.prems(1), of env oid s rest i results]
  show ?case
  proof (cases "insert_error env i")
    case (Some e)
    then show ?thesis using Cons.prems unf by auto
  next
    case None
    show ?thesis
    proof (cases ?rows)
      case Nil
      then show ?thesis using Cons.prems unf None by auto
    next
      case (Cons newOrder others)
      let ?x = "\<lparr>r_orderId = ?nid, r_items = s, billData = newOrder\<rparr>"
      have p1: "pending ?w1 = Some (tbl @ ?rows)" by simp
      have step: "insertLoop env oid rest (i + 1) (results @ [?x]) ?w1 = (Inr out, w')"
        using Cons.prems(2) unf None Cons by simp
      from Cons.IH [OF p1 step] obtain new where
        new: "out = (results @ [?x]) @ new"
          "list_all2 (derived oid) (zip [i + 1 ..< i + 1 + length rest] rest) new"
        by blast
      have "newOrder \<in> set ?rows" using Cons by simp
      then have "derived oid (i, s) ?x"
        using clone_rows_ids [of newOrder ?nid s oid tbl] by (simp add: derived_def)
      moreover have "zip [i ..< i + length (s # rest)] (s # rest)
          = (i, s) # zip [i + 1 ..< i + 1 + length rest] rest"
        by (subst upt_rec) simp
      ultimately have "out = results @ (?x # new) \<and>
          list_all2 (derived oid) (zip [i ..< i + length (s # rest)] (s # rest)) (?x # new)"
        using new by simp
      then show ?thesis by blast
    qed
  qed
qed

lemma insertLoop_succeeds_iff:
  assumes "pending w = Some tbl" and "insertLoop env oid splits i results w = (r, w')"
  shows "isl r \<longleftrightarrow>
     \<not> ((\<forall>j < length splits. insert_error env (i + j) = None) \<and>
        (splits = [] \<or> originalRows oid tbl \<noteq> []))"
  using assms
proof (induction splits arbitrary: i results w tbl)
  case Nil
  then show ?case by auto
next
  case (Cons s rest)
  let ?nid = "splitOrderId oid i"
  let ?rows = "clone_rows ?nid s oid tbl"
  let ?w1 = "emit (Insert ?nid True) (w\<lparr>pending := Some (tbl @ ?rows)\<rparr>)"
  note unf = insertLoop_Cons [OF Cons.prems(1), of env oid s rest i results]
  have shift: "(\<forall>j < length (s # rest). insert_error env (i + j) = None) \<longleftrightarrow>
      insert_error env i = None \<and> (\<forall>j < length rest. insert_error env (i + 1 + j) = None)"
    by (simp add: All_less_Suc2)
  show ?case
  proof (cases "insert_error env i")
    case (Some e)
    then show ?thesis using Cons.prems unf shift by auto
  next
    case None
    show ?thesis
    proof (cases ?rows)
      case Nil
      then have "originalRows oid tbl = []" using clone_rows_original by blast
      then show ?thesis using Cons.prems unf None Nil by auto
    next
      case (Cons newOrder others)
      then have orig: "originalRows oid tbl \<noteq> []"
        using clone_rows_original [of ?nid s oid tbl] by auto
      have p1: "pending ?w1 = Some (tbl @ ?rows)" by simp
      have step: "insertLoop env oid rest (i + 1)
          (results @ [\<lparr>r_orderId = ?nid, r_items = s, billData = newOrder\<rparr>]) ?w1 = (r, w')"
        using Cons.prems(2) unf None Cons by simp
      have "isl r \<longleftrightarrow> \<not> ((\<forall>j < length rest. insert_error env (i + 1 + j) = None) \<and>
          (rest = [] \<or> originalRows oid (tbl @ ?rows) \<noteq> []))"
        by (rule Cons.IH [OF p1 step])
      then show ?thesis
        using None orig shift by (simp add: originalRows_append)
    qed
  qed
qed


lemma is_insert_before_commit: "list_all is_insert tr \<Longrightarrow> list_all before_commit tr"
proof (induction tr)
  case Nil
  then show ?case by simp
next
  case (Cons e tr)
  then show ?case by (cases e) simp_all
qed

lemma query_begin_ok:
  assumes "begin_error env = None"
  shows "\<exists>w1. query_begin env w = (Inr (), w1) \<and> pending w1 = Some (txn_table w) \<and>
           committed w1 = committed w \<and> log w1 = log w @ [Begin True]"
  using assms by (simp add: query_begin_def txn_table_def split: option.splits)

lemma query_commit_ok:
  assumes "commit_error env = None" and "pending w = Some tbl"
  shows "\<exists>w1. query_commit env w = (Inr (), w1) \<and> pending w1 = None \<and>
           committed w1 = tbl \<and> log w1 = log w @ [Commit True]"
  using assms by (simp add: query_commit_def)

lemma completeOriginalOrder_world:
  assumes "completeOriginalOrder rv env originalOrder w = (r, w')"
  shows "pending w' = pending w \<and> committed w' = completion_effect env (committed w) \<and>
     log w' = log w @ completion_event originalOrder # completion_checks rv \<and>
     (completion_throws rv env \<longrightarrow> (\<exists>e. completion env = Threw e \<and> r = Inl e)) \<and>
     (\<not> completion_throws rv env \<longrightarrow> r = Inr ())"
  using assms
  by (cases rv; cases "completion env")
     (auto simp: completeOriginalOrder_def invoke_completion_def completion_event_def
        completion_throws_def)

lemma tryCreate_fails:
  assumes "\<not> transaction_commits env oid splits w"
    and "tryCreate rv env originalOrder splits oid w = (r, w2)"
  shows "isl r \<and> committed w2 = committed w \<and>
         (\<exists>tr. log w2 = log w @ tr \<and> list_all before_commit tr)"
proof (cases "begin_error env")
  case (Some e)
  then show ?thesis
    using assms(2) by (auto simp: tryCreate_def query_begin_def)
next
  case None
  obtain w1 where b: "query_begin env w = (Inr (), w1)" "pending w1 = Some (txn_table w)"
    "committed w1 = committed w" "log w1 = log w @ [Begin True]"
    using query_begin_ok [OF None] by blast
  obtain r1 wl where l: "insertLoop env oid splits 0 [] w1 = (r1, wl)"
    by (cases "insertLoop env oid splits 0 [] w1")
  note st = insertLoop_state [OF b(2) l]
  obtain tr where tr: "log wl = log w1 @ tr" "list_all is_insert tr"
    using insertLoop_log [OF b(2) l] by blast
  have iff: "isl r1 \<longleftrightarrow> \<not> inserts_succeed env oid (txn_table w) splits"
    using insertLoop_succeeds_iff [OF b(2) l] by (simp add: inserts_succeed_def)
  show ?thesis
  proof (cases r1)
    case (Inl e)
    then have "r = Inl e" "w2 = wl"
      using assms(2) b(1) l by (simp_all add: tryCreate_def)
    then show ?thesis
      using st b tr is_insert_before_commit [OF tr(2)] by auto
  next
    case (Inr out)
    then have "inserts_succeed env oid (txn_table w) splits" using iff by simp
    then obtain e where ce: "commit_error env = Some e"
      using assms(1) None by (auto simp: transaction_commits_def)
    then have "r = Inl e" "w2 = emit (Commit False) wl"
      using assms(2) b(1) l Inr by (simp_all add: tryCreate_def query_commit_def)
    then show ?thesis
      using st b tr is_insert_before_commit [OF tr(2)] by auto
  qed
qed

lemma tryCreate_commits:
  assumes "transaction_commits env oid splits w"
    and "tryCreate rv env originalOrder splits oid w = (r, w2)"
  shows "pending w2 = None \<and>
     committed w2 =
       completion_effect env (txn_table w @ derivedRows oid (txn_table w) 0 splits) \<and>
     log w2 = log w @ Begin True # insert_events oid (length splits) @
       [Commit True, completion_event originalOrder] @ completion_checks rv \<and>
     (completion_throws rv env \<longrightarrow> (\<exists>e. completion env = Threw e \<and> r = Inl e)) \<and>
     (\<not> completion_throws rv env \<longrightarrow>
        (\<exists>out. r = Inr out \<and> list_all2 (derived oid) (zip [0 ..< length splits] splits) out))"
proof -
  have be: "begin_error env = None" and ce: "commit_error env = None"
    and ok: "inserts_succeed env oid (txn_table w) splits"
    using assms(1) by (simp_all add: transaction_commits_def)
  obtain w1 where b: "query_begin env w = (Inr (), w1)" "pending w1 = Some (txn_table w)"
    "committed w1 = committed w" "log w1 = log w @ [Begin True]"
    using query_begin_ok [OF be] by blast
  obtain r1 wl where l: "insertLoop env oid splits 0 [] w1 = (r1, wl)"
    by (cases "insertLoop env oid splits 0 [] w1")
  have "\<not> isl r1"
    using insertLoop_succeeds_iff [OF b(2) l] ok by (simp add: inserts_succeed_def)
  then obtain out where out: "r1 = Inr out" by (cases r1) simp_all
  have pl: "pending wl = Some (txn_table w @ derivedRows oid (txn_table w) 0 splits)"
    using insertLoop_state [OF b(2) l] out by simp
  have tr: "log wl = log w1 @ insert_events oid (length splits)"
    using insertLoop_log [OF b(2) l] out by (auto simp: insert_events_def)
  have res: "list_all2 (derived oid) (zip [0 ..< length splits] splits) out"
    using insertLoop_results [OF b(2) l [unfolded out]] by simp
  obtain w3 where c: "query_commit env wl = (Inr (), w3)" "pending w3 = None"
    "committed w3 = txn_table w @ derivedRows oid (txn_table w) 0 splits"
    "log w3 = log wl @ [Commit True]"
    using query_commit_ok [OF ce pl] by blast
  obtain r4 w4 where d: "completeOriginalOrder rv env originalOrder w3 = (r4, w4)"
    by (cases "completeOriginalOrder rv env originalOrder w3")
  note cw = completeOriginalOrder_world [OF d]
  have fin: "w2 = w4" "r = (case r4 of Inl e \<Rightarrow> Inl e | Inr _ \<Rightarrow> Inr out)"
    using assms(2) b(1) l out c(1) d by (auto simp: tryCreate_def split: sum.splits)
  have "log w2 = log w @ Begin True # insert_events oid (length splits) @
       [Commit True, completion_event originalOrder] @ completion_checks rv"
    using fin cw c(4) tr b(4) by simp
  moreover have "pending w2 = None" using fin cw c(2) by simp
  moreover have "committed w2 =
       completion_effect env (txn_table w @ derivedRows oid (txn_table w) 0 splits)"
    using fin cw c(3) by simp
  moreover have "completion_throws rv env \<longrightarrow> (\<exists>e. completion env = Threw e \<and> r = Inl e)"
    using cw fin(2) by auto
  moreover have "\<not> completion_throws rv env \<longrightarrow>
        (\<exists>out. r = Inr out \<and> list_all2 (derived oid) (zip [0 ..< length splits] splits) out)"
    using cw fin(2) res by auto
  ultimately show ?thesis by blast
qed

lemma before_commit_weaken:
  "list_all before_commit tr \<Longrightarrow> list_all not_completion tr \<and> Commit True \<notin> set tr"
proof (induction tr)
  case Nil
  then show ?case by simp
next
  case (Cons e tr)
  then show ?case by (cases e) auto
qed

lemma txn_table_emit [simp]: "txn_table (emit e w) = txn_table w"
  by (simp add: txn_table_def split: option.splits)

lemma transaction_commits_emit [simp]:
  "transaction_commits env oid splits (emit e w) = transaction_commits env oid splits w"
  by (simp add: transaction_commits_def)

lemma createSplitOrders_catch:
  assumes "connect_error env = None"
    and "tryCreate rv env originalOrder splits oid (emit (Connect True) w) = (Inl error, w2)"
    and "createSplitOrders rv env originalOrder splits tid oid w = (res, w')"
  shows "isl res \<and> committed w' = committed w2 \<and>
         log w' = log w2 @ [Rollback (rollback_error env = None), Release] \<and>
         (rollback_error env = None \<longrightarrow> res = Inl error \<and> pending w' = None)"
  using assms
  by (cases "rollback_error env")
     (auto simp: createSplitOrders_def pool_connect_def query_rollback_def client_release_def)

lemma createSplitOrders_fails:
  assumes "\<not> (connect_error env = None \<and> transaction_commits env oid splits w)"
    and "createSplitOrders rv env originalOrder splits tid oid w = (res, w')"
  shows "isl res \<and> committed w' = committed w \<and>
         (pending w = None \<and> rollback_error env = None \<longrightarrow> pending w' = None) \<and>
         (\<exists>tr. log w' = log w @ tr \<and> list_all not_completion tr \<and> Commit True \<notin> set tr)"
proof (cases "connect_error env")
  case (Some e)
  then show ?thesis
    using assms(2) by (auto simp: createSplitOrders_def pool_connect_def)
next
  case None
  let ?w1 = "emit (Connect True) w"
  obtain r w2 where t: "tryCreate rv env originalOrder splits oid ?w1 = (r, w2)"
    by (cases "tryCreate rv env originalOrder splits oid ?w1")
  have nc: "\<not> transaction_commits env oid splits ?w1" using assms(1) None by simp
  from tryCreate_fails [OF nc t] obtain tr where
    f: "isl r" "committed w2 = committed w" "log w2 = log ?w1 @ tr" "list_all before_commit tr"
    by auto
  obtain error where r: "r = Inl error" using f(1) by (cases r) simp_all
  note c = createSplitOrders_catch [OF None t [unfolded r] assms(2)]
  let ?tr = "Connect True # tr @ [Rollback (rollback_error env = None), Release]"
  have "log w' = log w @ ?tr \<and> list_all not_completion ?tr \<and> Commit True \<notin> set ?tr"
    using c f(3) before_commit_weaken [OF f(4)] by simp
  then have "\<exists>tr. log w' = log w @ tr \<and> list_all not_completion tr \<and> Commit True \<notin> set tr"
    by (rule exI)
  then show ?thesis using c f(2) by simp
qed

lemma createSplitOrders_commits:
  assumes "connect_error env = None" and "transaction_commits env oid splits w"
    and "createSplitOrders rv env originalOrder splits tid oid w = (res, w')"
  shows "committed w' =
       completion_effect env (txn_table w @ derivedRows oid (txn_table w) 0 splits) \<and>
     log w' = log w @ [Connect True, Begin True] @ insert_events oid (length splits) @
       [Commit True, completion_event originalOrder] @ completion_checks rv @
       closing_events rv env \<and>
     (completion_throws rv env \<longrightarrow> isl res) \<and>
     (\<not> completion_throws rv env \<longrightarrow>
        (\<exists>out. res = Inr out \<and> list_all2 (derived oid) (zip [0 ..< length splits] splits) out))"
proof -
  let ?w1 = "emit (Connect True) w"
  obtain r w2 where t: "tryCreate rv env originalOrder splits oid ?w1 = (r, w2)"
    by (cases "tryCreate rv env originalOrder splits oid ?w1")
  have tc: "transaction_commits env oid splits ?w1" using assms(2) by simp
  note k = tryCreate_commits [OF tc t]
  show ?thesis
  proof (cases "completion_throws rv env")
    case True
    then obtain error where r: "r = Inl error" using k by blast
    note c = createSplitOrders_catch [OF assms(1) t [unfolded r] assms(3)]
    show ?thesis using c k True by (simp add: closing_events_def)
  next
    case False
    then obtain out where out: "r = Inr out"
      "list_all2 (derived oid) (zip [0 ..< length splits] splits) out"
      using k by blast
    have "res = Inr out" "w' = client_release w2"
      using assms(1,3) t out(1) by (simp_all add: createSplitOrders_def pool_connect_def)
    then show ?thesis using k False out(2) by (simp add: closing_events_def client_release_def)
  qed
qed

lemma derivedRows_exist:
  assumes "originalRows oid tbl \<noteq> []" and "i < length splits"
  shows "\<exists>row \<in> set (derivedRows oid tbl j splits).
           order_id row = splitOrderId oid (j + i) \<and> json_data row = splits ! i"
  using assms(2)
proof (induction splits arbitrary: i j)
  case Nil
  then show ?case by simp
next
  case (Cons s rest)
  show ?case
  proof (cases i)
    case 0
    obtain r where "r \<in> set (originalRows oid tbl)"
      using assms(1) by (cases "originalRows oid tbl") auto
    then have "r\<lparr>order_id := splitOrderId oid j, json_data := s\<rparr>
        \<in> set (clone_rows (splitOrderId oid j) s oid tbl)"
      by (auto simp: clone_rows_def originalRows_def)
    then show ?thesis using 0 by force
  next
    case (Suc k)
    then have "k < length rest" using Cons.prems by simp
    from Cons.IH [OF this, of "j + 1"] show ?thesis using Suc by auto
  qed
qed

lemma inserts_succeed_iff:
  "inserts_succeed env oid tbl splits \<longleftrightarrow>
     \<not> ((\<exists>i < length splits. insert_error env i \<noteq> None) \<or>
        (splits \<noteq> [] \<and> originalRows oid tbl = []))"
  by (auto simp: inserts_succeed_def)

text \<open>
  Claim C1. A run of \<open>createSplitOrders\<close> on a client with no transaction open is
  all or nothing. If the store raises an error at one of the inserts, or an insert
  returns no row (the original order is not in the table), the run fails, the visible
  table is the one it started from, so that no derived order is visible, and the
  transaction is closed by the rollback, unless the store rejects the rollback too. If the
  connection, the begin, every insert and the commit succeed, the table handed on after
  the commit is the former table, with every row of it, the original order included,
  followed by the derived rows, one at least for each of the N splits with its id and
  its payload; only the completion collaborator, called after the commit, acts on that
  table. No run leaves anything else.
\<close>

theorem split_orders_atomic:
  assumes idle: "pending w = None"
    and run: "createSplitOrders rv env originalOrder splits tid oid w = (res, w')"
  shows "((\<exists>i < length splits. insert_error env i \<noteq> None) \<or>
          (splits \<noteq> [] \<and> originalRows oid (committed w) = [])
            \<longrightarrow> isl res \<and> committed w' = committed w \<and>
                (rollback_error env = None \<longrightarrow> pending w' = None)) \<and>
         (connect_error env = None \<and> begin_error env = None \<and>
          (\<forall>i < length splits. insert_error env i = None) \<and>
          originalRows oid (committed w) \<noteq> [] \<and> commit_error env = None
            \<longrightarrow> committed w' =
                  completion_effect env (committed w @ derivedRows oid (committed w) 0 splits) \<and>
                (\<forall>i < length splits.
                   \<exists>row \<in> set (derivedRows oid (committed w) 0 splits).
                     order_id row = splitOrderId oid i \<and> json_data row = splits ! i)) \<and>
         (committed w' = committed w \<or>
          committed w' =
            completion_effect env (committed w @ derivedRows oid (committed w) 0 splits))"
proof -
  have tt: "txn_table w = committed w" using idle by (simp add: txn_table_def)
  let ?commits = "connect_error env = None \<and> transaction_commits env oid splits w"
  have fails: "\<not> ?commits \<Longrightarrow> isl res \<and> committed w' = committed w \<and>
      (rollback_error env = None \<longrightarrow> pending w' = None)"
    using createSplitOrders_fails [OF _ run] idle by blast
  have commits: "?commits \<Longrightarrow> committed w' =
      completion_effect env (committed w @ derivedRows oid (committed w) 0 splits)"
    using createSplitOrders_commits [OF _ _ run] tt by simp
  have a: "(\<exists>i < length splits. insert_error env i \<noteq> None) \<or>
          (splits \<noteq> [] \<and> originalRows oid (committed w) = [])
            \<longrightarrow> isl res \<and> committed w' = committed w \<and>
                (rollback_error env = None \<longrightarrow> pending w' = None)"
    using fails inserts_succeed_iff [of env oid "committed w" splits] tt
    by (auto simp: transaction_commits_def)
  have b: "connect_error env = None \<and> begin_error env = None \<and>
          (\<forall>i < length splits. insert_error env i = None) \<and>
          originalRows oid (committed w) \<noteq> [] \<and> commit_error env = None
            \<longrightarrow> committed w' =
                  completion_effect env (committed w @ derivedRows oid (committed w) 0 splits) \<and>
                (\<forall>i < length splits.
                   \<exists>row \<in> set (derivedRows oid (committed w) 0 splits).
                     order_id row = splitOrderId oid i \<and> json_data row = splits ! i)"
  proof (intro impI conjI allI)
    assume h: "connect_error env = None \<and> begin_error env = None \<and>
          (\<forall>i < length splits. insert_error env i = None) \<and>
          originalRows oid (committed w) \<noteq> [] \<and> commit_error env = None"
    then have "?commits"
      using tt by (simp add: transaction_commits_def inserts_succeed_def)
    then show "committed w' =
        completion_effect env (committed w @ derivedRows oid (committed w) 0 splits)"
      by (rule commits)
    fix i
    assume "i < length splits"
    then show "\<exists>row \<in> set (derivedRows oid (committed w) 0 splits).
        order_id row = splitOrderId oid i \<and> json_data row = splits ! i"
      using derivedRows_exist [of oid "committed w" i splits 0] h by simp
  qed
  have c: "committed w' = committed w \<or> committed w' =
      completion_effect env (committed w @ derivedRows oid (committed w) 0 splits)"
    using fails commits by blast
  show ?thesis using a b c by blast
qed

text \<open>
  Claim C9. In the events of a run of \<open>createSplitOrders\<close>, either no commit
  succeeds and the completion collaborator is not called, or it is called exactly once,
  as the event right after the successful commit, with the restaurant and the table of
  the original order, the total \<open>0\<close> and the payment method \<open>split\<close>; what precedes
  the commit holds no rollback and no other successful commit. (In the copy that calls
  the utility, a completion that throws is followed by a \<open>ROLLBACK\<close> statement, sent
  when the transaction is already committed.)
\<close>

theorem completion_once_after_commit:
  assumes run: "createSplitOrders rv env originalOrder splits tid oid w = (res, w')"
  shows "\<exists>tr. log w' = log w @ tr \<and>
     (Commit True \<notin> set tr \<and> list_all not_completion tr \<or>
      (\<exists>pre post. tr = pre @ [Commit True,
           CompleteOrder (restaurant_id originalOrder) (table_id originalOrder) 0 ''split'']
           @ post \<and>
         list_all before_commit pre \<and> list_all not_completion post \<and>
         Commit True \<notin> set post))"
proof (cases "connect_error env = None \<and> transaction_commits env oid splits w")
  case False
  from createSplitOrders_fails [OF False run] show ?thesis by blast
next
  case True
  let ?pre = "[Connect True, Begin True] @ insert_events oid (length splits)"
  let ?post = "completion_checks rv @ closing_events rv env"
  have lg: "log w' = log w @ ?pre @ [Commit True,
      CompleteOrder (restaurant_id originalOrder) (table_id originalOrder) 0 ''split''] @ ?post"
    using createSplitOrders_commits [OF _ _ run] True by (simp add: completion_event_def)
  have pre: "list_all before_commit ?pre"
    by (simp add: insert_events_def list_all_iff)
  have post: "list_all not_completion ?post \<and> Commit True \<notin> set ?post"
    by (cases rv) (simp_all add: closing_events_def)
  show ?thesis using lg pre post by blast
qed

text \<open>
  Claim C5. When \<open>createSplitOrders\<close> returns its results for N splits and the
  original order id \<open>O\<close>, result \<open>i\<close> carries the id \<open>O-split-(i+1)\<close> and split
  \<open>i\<close>, as does the row returned for it, and the statements sent to the store are the
  N inserts with these ids, in the order of the splits, followed by the commit.
\<close>

theorem split_order_ids:
  assumes run: "createSplitOrders rv env originalOrder splits tid oid w = (Inr results, w')"
  shows "length results = length splits \<and>
     (\<forall>i < length splits.
        r_orderId (results ! i) = oid @ ''-split-'' @ string_of_nat (i + 1) \<and>
        r_items (results ! i) = splits ! i \<and>
        order_id (billData (results ! i)) = oid @ ''-split-'' @ string_of_nat (i + 1) \<and>
        json_data (billData (results ! i)) = splits ! i) \<and>
     (\<exists>closing. log w' = log w @ [Connect True, Begin True] @
        map (\<lambda>i. Insert (oid @ ''-split-'' @ string_of_nat (i + 1)) True) [0 ..< length splits] @
        Commit True # closing)"
proof -
  have c: "connect_error env = None \<and> transaction_commits env oid splits w"
  proof (rule ccontr)
    assume n: "\<not> (connect_error env = None \<and> transaction_commits env oid splits w)"
    from createSplitOrders_fails [OF n run] show False by simp
  qed
  note k = createSplitOrders_commits [OF _ _ run]
  have nt: "\<not> completion_throws rv env" using k c by auto
  then have d: "list_all2 (derived oid) (zip [0 ..< length splits] splits) results"
    using k c by auto
  then have len: "length results = length splits"
    by (auto dest: list_all2_lengthD)
  have each: "\<forall>i < length splits.
        r_orderId (results ! i) = oid @ ''-split-'' @ string_of_nat (i + 1) \<and>
        r_items (results ! i) = splits ! i \<and>
        order_id (billData (results ! i)) = oid @ ''-split-'' @ string_of_nat (i + 1) \<and>
        json_data (billData (results ! i)) = splits ! i"
  proof (intro allI impI)
    fix i
    assume i: "i < length splits"
    then have "i < length (zip [0 ..< length splits] splits)" by simp
    then have "derived oid (zip [0 ..< length splits] splits ! i) (results ! i)"
      using d by (rule list_all2_nthD [rotated])
    then show "r_orderId (results ! i) = oid @ ''-split-'' @ string_of_nat (i + 1) \<and>
        r_items (results ! i) = splits ! i \<and>
        order_id (billData (results ! i)) = oid @ ''-split-'' @ string_of_nat (i + 1) \<and>
        json_data (billData (results ! i)) = splits ! i"
      using i by (simp add: derived_def splitOrderId_def)
  qed
  have "log w' = log w @ [Connect True, Begin True] @
        map (\<lambda>i. Insert (oid @ ''-split-'' @ string_of_nat (i + 1)) True) [0 ..< length splits] @
        Commit True # (completion_event originalOrder # completion_checks rv @ closing_events rv env)"
    using k c by (simp add: insert_events_def splitOrderId_def)
  then show ?thesis using len each by blast
qed

lemma completion_failure_tolerated:
  assumes "connect_error env = None" and "transaction_commits env oid splits w"
    and "rv = ControllerCompletion \<or> completion env = Failed \<or> completion env = Completed"
    and run: "createSplitOrders rv env originalOrder splits tid oid w = (res, w')"
  shows "\<exists>results. res = Inr results \<and> length results = length splits"
proof -
  have "\<not> completion_throws rv env"
    using assms(3) by (auto simp: completion_throws_def)
  then obtain out where "res = Inr out"
    "list_all2 (derived oid) (zip [0 ..< length splits] splits) out"
    using createSplitOrders_commits [OF assms(1,2) run] by blast
  then show ?thesis by (auto dest: list_all2_lengthD)
qed

lemma truthy_present: "\<not> falsy_str x \<Longrightarrow> x \<noteq> None"
  by (cases x) simp_all

lemma validateSplitRequest_invalid:
  assumes "request_invalid req"
  shows "\<exists>e. validateSplitRequest req = Inl e \<and> e \<in> set validation_errors"
proof (cases "falsy_str (tableId req) \<or> falsy_str (orderId req) \<or> falsy_str (splitType req)")
  case True
  then show ?thesis by (simp add: validateSplitRequest_def validation_errors_def)
next
  case False
  then have f: "tableId req \<noteq> None" "orderId req \<noteq> None" "splitType req \<noteq> None"
    by (auto dest: truthy_present)
  show ?thesis
  proof (cases "splitType req \<noteq> Some ''portion'' \<and> splitType req \<noteq> Some ''percentage''")
    case True
    then show ?thesis using False by (simp add: validateSplitRequest_def validation_errors_def)
  next
    case st: False
    show ?thesis
    proof (cases "splitType req = Some ''portion''")
      case True
      then have "bad_count (count req)"
        using assms f by (cases "count req") (auto simp: request_invalid_def)
      then show ?thesis
        using False True by (simp add: validateSplitRequest_def validation_errors_def)
    next
      case np: False
      then have pc: "splitType req = Some ''percentage''" using st by simp
      have v: "validateSplitRequest req = validatePercentages (percentages req)"
        using False pc by (simp add: validateSplitRequest_def)
      have bad: "case percentages req of None \<Rightarrow> True
          | Some ps \<Rightarrow> ps = [] \<or> (\<exists>p \<in> set ps. p \<le> 0) \<or> sum_mismatch ps"
        using assms f pc by (auto simp: request_invalid_def)
      show ?thesis
      proof (cases "percentages req")
        case None
        then show ?thesis using v by (simp add: validatePercentages_def validation_errors_def)
      next
        case (Some ps)
        then have "ps = [] \<or> (\<exists>p \<in> set ps. p \<le> 0) \<or> sum_mismatch ps"
          using bad by simp
        then show ?thesis
          using v Some by (auto simp: validatePercentages_def validation_errors_def)
      qed
    qed
  qed
qed

text \<open>
  Claim C6, amended. For every request that the interface rules out, the sum of the
  percentages and its distance from \<open>100\<close> being those that the validation computes in
  double arithmetic, the validation fails with one of its errors and \<open>splitBill\<close>
  answers with the status 400 and the message of that error, in the world it was called
  in: no statement has reached the store and no collaborator has been called. The
  validation is a function of the request alone.
\<close>

theorem invalid_request_rejected:
  assumes "request_invalid req"
  shows "\<exists>e. validateSplitRequest req = Inl e \<and> e \<in> set validation_errors \<and>
     splitBill rv env req w = (Some \<lparr>status = 400, body = ErrorBody (message e)\<rparr>, w)"
proof -
  obtain e where "validateSplitRequest req = Inl e" "e \<in> set validation_errors"
    using validateSplitRequest_invalid [OF assms] by blast
  then show ?thesis by (auto simp: splitBill_def error_response_def)
qed

theorem invalid_request_rejected_witness:
  "request_invalid (example_request\<lparr>percentages := Some [40, 35, 20]\<rparr>) \<and>
   splitBill UtilCompletion env_ok (example_request\<lparr>percentages := Some [40, 35, 20]\<rparr>)
     example_world
     = (Some \<lparr>status = 400, body = ErrorBody ''Percentages must sum to 100''\<rparr>, example_world)"
proof -
  let ?req = "example_request\<lparr>percentages := Some [40, 35, 20]\<rparr>"
  have m: "sum_mismatch [40, 35, 20]" by code_simp
  have inv: "request_invalid ?req"
    using m by (simp add: request_invalid_def example_request_def)
  have v: "validateSplitRequest ?req = Inl err_sum"
    using m by (simp add: validateSplitRequest_def validatePercentages_def example_request_def)
  obtain e where "validateSplitRequest ?req = Inl e"
    "splitBill UtilCompletion env_ok ?req example_world
       = (Some \<lparr>status = 400, body = ErrorBody (message e)\<rparr>, example_world)"
    using invalid_request_rejected [OF inv] by blast
  then show ?thesis using inv v by (auto simp: err_sum_def)
qed

text \<open>
  The three percentages of \<open>boundary_request\<close> sum, exactly, to more than \<open>100.01\<close>;
  added as doubles they sum to the first of them, which is within \<open>0.01\<close> of \<open>100\<close>:
  the validation accepts the request and \<open>splitBill\<close> goes on to the store.
\<close>

theorem exact_sum_counterexample:
  "spec_invalid boundary_request \<and>
   validateSplitRequest boundary_request = Inr () \<and>
   map_option status (fst (splitBill UtilCompletion env_ok boundary_request example_world))
     = Some 200 \<and>
   take 2 (log (snd (splitBill UtilCompletion env_ok boundary_request example_world)))
     = [Select ''order-123'' ''table-1'' True, Connect True]"
  by code_simp

text \<open>
  Claim C7. The validator rejects the percentages 40, 35, 20 (sum 95) with the error of
  the sum, and the percentages 50, -10, 60, whose sum is exactly 100, with the error of
  the entry that is not positive; and it rejects with that error every list that is not
  empty, passes the check of the sum and holds an entry that is not positive.
\<close>

theorem percentage_validation_examples:
  "validateSplitRequest
     \<lparr>tableId = Some ''table-1'', orderId = Some ''order-123'', splitType = Some ''percentage'',
      count = None, percentages = Some [40, 35, 20]\<rparr> = Inl err_sum \<and>
   message err_sum = ''Percentages must sum to 100'' \<and>
   double_sum [50, - 10, 60] = Some 100 \<and>
   validateSplitRequest
     \<lparr>tableId = Some ''table-1'', orderId = Some ''order-123'', splitType = Some ''percentage'',
      count = None, percentages = Some [50, - 10, 60]\<rparr> = Inl err_positive \<and>
   message err_positive = ''All percentages must be greater than 0'' \<and>
   (\<forall>req ps. \<not> falsy_str (tableId req) \<and> \<not> falsy_str (orderId req) \<and>
      splitType req = Some ''percentage'' \<and> percentages req = Some ps \<and> ps \<noteq> [] \<and>
      \<not> sum_mismatch ps \<and> (\<exists>p \<in> set ps. p \<le> 0)
        \<longrightarrow> validateSplitRequest req = Inl err_positive)"
proof (intro conjI allI impI)
  show "validateSplitRequest
     \<lparr>tableId = Some ''table-1'', orderId = Some ''order-123'', splitType = Some ''percentage'',
      count = None, percentages = Some [40, 35, 20]\<rparr> = Inl err_sum"
    by code_simp
  show "message err_sum = ''Percentages must sum to 100''"
    by (simp add: err_sum_def)
  show "double_sum [50, - 10, 60] = Some 100"
    by code_simp
  show "validateSplitRequest
     \<lparr>tableId = Some ''table-1'', orderId = Some ''order-123'', splitType = Some ''percentage'',
      count = None, percentages = Some [50, - 10, 60]\<rparr> = Inl err_positive"
    by code_simp
  show "message err_positive = ''All percentages must be greater than 0''"
    by (simp add: err_positive_def)
next
  fix req :: SplitRequest and ps :: "rat list"
  assume "\<not> falsy_str (tableId req) \<and> \<not> falsy_str (orderId req) \<and>
      splitType req = Some ''percentage'' \<and> percentages req = Some ps \<and> ps \<noteq> [] \<and>
      \<not> sum_mismatch ps \<and> (\<exists>p \<in> set ps. p \<le> 0)"
  then show "validateSplitRequest req = Inl err_positive"
    by (auto simp: validateSplitRequest_def validatePercentages_def)
qed

theorem percentage_validation_witness:
  "\<not> sum_mismatch [0, 100] \<and>
   validateSplitRequest (example_request\<lparr>percentages := Some [0, 100]\<rparr>) = Inl err_positive"
proof -
  let ?req = "example_request\<lparr>percentages := Some [0, 100]\<rparr>"
  have m: "\<not> sum_mismatch [0, 100]" by code_simp
  have "\<not> falsy_str (tableId ?req) \<and> \<not> falsy_str (orderId ?req) \<and>
      splitType ?req = Some ''percentage'' \<and> percentages ?req = Some [0, 100] \<and>
      [0, 100 :: rat] \<noteq> [] \<and> \<not> sum_mismatch [0, 100] \<and> (\<exists>p \<in> set [0, 100 :: rat]. p \<le> 0)"
    using m by (simp add: example_request_def)
  then have "validateSplitRequest ?req = Inl err_positive"
    using percentage_validation_examples by blast
  then show ?thesis using m by simp
qed

lemma validated_ids:
  assumes "validateSplitRequest req = Inr u"
  shows "\<exists>tid oid. tableId req = Some tid \<and> orderId req = Some oid"
proof -
  have "\<not> falsy_str (tableId req) \<and> \<not> falsy_str (orderId req)"
    using assms by (auto simp: validateSplitRequest_def split: if_splits)
  then show ?thesis
    by (cases "tableId req"; cases "orderId req") simp_all
qed

text \<open>
  Claim C8, amended. The response of \<open>splitBill\<close> in every category of failure is an
  error with a message. An error of the validation is answered with the status 400 and
  its message. After the validation, which leaves a table id and an order id: an error
  of the store at the lookup of the order is answered with 400 and its message; an
  order that is not found is answered with 404 and \<open>Order not found\<close>; an error thrown
  by the calculator is answered with 400 and its message; an error of
  \<open>createSplitOrders\<close>, which is how a failure of the persistence arrives, is answered
  with 400 and its message; and results are answered with 200 and the success message.
\<close>

theorem failure_responses:
  "(\<forall>e. validateSplitRequest req = Inl e \<longrightarrow>
      splitBill rv env req w = (Some \<lparr>status = 400, body = ErrorBody (message e)\<rparr>, w)) \<and>
   (validateSplitRequest req = Inr () \<longrightarrow>
      (\<exists>tid oid. tableId req = Some tid \<and> orderId req = Some oid)) \<and>
   (validateSplitRequest req = Inr () \<and> tableId req = Some tid \<and> orderId req = Some oid \<longrightarrow>
      (\<forall>e. select_error env = Some e \<longrightarrow>
         fst (splitBill rv env req w)
           = Some \<lparr>status = 400, body = ErrorBody (message e)\<rparr>) \<and>
      (select_error env = None \<and>
       filter (\<lambda>r. order_id r = oid \<and> table_id r = tid) (committed w) = [] \<longrightarrow>
         fst (splitBill rv env req w)
           = Some \<lparr>status = 404, body = ErrorBody ''Order not found''\<rparr>) \<and>
      (\<forall>order others. select_error env = None \<and>
         filter (\<lambda>r. order_id r = oid \<and> table_id r = tid) (committed w) = order # others \<longrightarrow>
           (\<forall>e. calculateSplits env req (json_data order) = Some (Inl e) \<longrightarrow>
              fst (splitBill rv env req w)
                = Some \<lparr>status = 400, body = ErrorBody (message e)\<rparr>) \<and>
           (\<forall>splits e. calculateSplits env req (json_data order) = Some (Inr splits) \<and>
              fst (createSplitOrders rv env order splits tid oid (emit (Select oid tid True) w))
                = Inl e \<longrightarrow>
              fst (splitBill rv env req w)
                = Some \<lparr>status = 400, body = ErrorBody (message e)\<rparr>) \<and>
           (\<forall>splits results. calculateSplits env req (json_data order) = Some (Inr splits) \<and>
              fst (createSplitOrders rv env order splits tid oid (emit (Select oid tid True) w))
                = Inr results \<longrightarrow>
              fst (splitBill rv env req w)
                = Some \<lparr>status = 200, body = SuccessBody ''Bill split successful'' results\<rparr>)))"
proof (intro conjI allI impI)
  fix e
  assume "validateSplitRequest req = Inl e"
  then show "splitBill rv env req w = (Some \<lparr>status = 400, body = ErrorBody (message e)\<rparr>, w)"
    by (simp add: splitBill_def error_response_def)
next
  assume "validateSplitRequest req = Inr ()"
  then show "\<exists>tid oid. tableId req = Some tid \<and> orderId req = Some oid"
    by (rule validated_ids)
next
  fix e
  assume "validateSplitRequest req = Inr () \<and> tableId req = Some tid \<and> orderId req = Some oid"
    and "select_error env = Some e"
  then show "fst (splitBill rv env req w) = Some \<lparr>status = 400, body = ErrorBody (message e)\<rparr>"
    by (simp add: splitBill_def error_response_def query_select_def)
next
  assume "validateSplitRequest req = Inr () \<and> tableId req = Some tid \<and> orderId req = Some oid"
    and "select_error env = None \<and>
       filter (\<lambda>r. order_id r = oid \<and> table_id r = tid) (committed w) = []"
  then show "fst (splitBill rv env req w)
      = Some \<lparr>status = 404, body = ErrorBody ''Order not found''\<rparr>"
    by (simp add: splitBill_def query_select_def)
next
  fix order others e
  assume "validateSplitRequest req = Inr () \<and> tableId req = Some tid \<and> orderId req = Some oid"
    and "select_error env = None \<and>
         filter (\<lambda>r. order_id r = oid \<and> table_id r = tid) (committed w) = order # others"
    and "calculateSplits env req (json_data order) = Some (Inl e)"
  then show "fst (splitBill rv env req w) = Some \<lparr>status = 400, body = ErrorBody (message e)\<rparr>"
    by (simp add: splitBill_def error_response_def query_select_def)
next
  fix order others splits e
  assume "validateSplitRequest req = Inr () \<and> tableId req = Some tid \<and> orderId req = Some oid"
    and "select_error env = None \<and>
         filter (\<lambda>r. order_id r = oid \<and> table_id r = tid) (committed w) = order # others"
    and "calculateSplits env req (json_data order) = Some (Inr splits) \<and>
              fst (createSplitOrders rv env order splits tid oid (emit (Select oid tid True) w))
                = Inl e"
  then show "fst (splitBill rv env req w) = Some \<lparr>status = 400, body = ErrorBody (message e)\<rparr>"
    by (cases "createSplitOrders rv env order splits tid oid (emit (Select oid tid True) w)")
       (simp add: splitBill_def error_response_def query_select_def)
next
  fix order others splits results
  assume "validateSplitRequest req = Inr () \<and> tableId req = Some tid \<and> orderId req = Some oid"
    and "select_error env = None \<and>
         filter (\<lambda>r. order_id r = oid \<and> table_id r = tid) (committed w) = order # others"
    and "calculateSplits env req (json_data order) = Some (Inr splits) \<and>
              fst (createSplitOrders rv env order splits tid oid (emit (Select oid tid True) w))
                = Inr results"
  then show "fst (splitBill rv env req w)
      = Some \<lparr>status = 200, body = SuccessBody ''Bill split successful'' results\<rparr>"
    by (cases "createSplitOrders rv env order splits tid oid (emit (Select oid tid True) w)")
       (simp add: splitBill_def query_select_def)
qed

theorem failure_responses_witness:
  "validateSplitRequest example_request = Inr () \<and>
   select_error env_insert_fails = None \<and>
   filter (\<lambda>r. order_id r = ''order-123'' \<and> table_id r = ''table-1'') (committed example_world)
     = [example_order] \<and>
   calculateSplits env_insert_fails example_request (json_data example_order)
     = Some (Inr example_splits) \<and>
   fst (createSplitOrders ControllerCompletion env_insert_fails example_order example_splits
          ''table-1'' ''order-123'' (emit (Select ''order-123'' ''table-1'' True) example_world))
     = Inl (Error ''insert failed'') \<and>
   fst (splitBill ControllerCompletion env_insert_fails example_request example_world)
     = Some \<lparr>status = 400, body = ErrorBody ''insert failed''\<rparr>"
proof -
  have v: "validateSplitRequest example_request = Inr ()" by code_simp
  have ids: "tableId example_request = Some ''table-1''" "orderId example_request = Some ''order-123''"
    by (simp_all add: example_request_def)
  have se: "select_error env_insert_fails = None"
    by (simp add: env_insert_fails_def env_ok_def)
  have row: "filter (\<lambda>r. order_id r = ''order-123'' \<and> table_id r = ''table-1'')
      (committed example_world) = example_order # []"
    by (simp add: example_world_def example_order_def)
  have cs: "calculateSplits env_insert_fails example_request (json_data example_order)
      = Some (Inr example_splits)"
    by (simp add: calculateSplits_def example_request_def example_splits_def example_order_def)
  have ce: "fst (createSplitOrders ControllerCompletion env_insert_fails example_order
      example_splits ''table-1'' ''order-123''
      (emit (Select ''order-123'' ''table-1'' True) example_world)) = Inl (Error ''insert failed'')"
    by code_simp
  have "fst (splitBill ControllerCompletion env_insert_fails example_request example_world)
      = Some \<lparr>status = 400, body = ErrorBody (message (Error ''insert failed''))\<rparr>"
    using failure_responses [of example_request ControllerCompletion env_insert_fails
        example_world "''table-1''" "''order-123''"] v ids se row cs ce
    by blast
  then show ?thesis using v se row cs ce by simp
qed

theorem failure_status_counterexample:
  "fst (splitBill UtilCompletion env_ok example_request empty_world)
     = Some \<lparr>status = 404, body = ErrorBody ''Order not found''\<rparr>"
  by code_simp

lemma example_commits: "transaction_commits env_ok ''order-123'' example_splits example_world"
  by (simp add: transaction_commits_def inserts_succeed_def env_ok_def txn_table_def
      example_world_def originalRows_def example_order_def)

theorem split_orders_atomic_witness:
  "pending example_world = None \<and>
   isl (fst (createSplitOrders UtilCompletion env_insert_fails example_order example_splits
     ''table-1'' ''order-123'' example_world)) \<and>
   committed (snd (createSplitOrders UtilCompletion env_insert_fails example_order example_splits
     ''table-1'' ''order-123'' example_world)) = committed example_world \<and>
   map order_id (committed (snd (createSplitOrders UtilCompletion env_ok example_order
     example_splits ''table-1'' ''order-123'' example_world)))
     = [''order-123'', ''order-123-split-1'', ''order-123-split-2'']"
proof -
  let ?run = "createSplitOrders UtilCompletion env_insert_fails example_order example_splits
     ''table-1'' ''order-123'' example_world"
  have idle: "pending example_world = None" by (simp add: example_world_def)
  have run: "?run = (fst ?run, snd ?run)" by simp
  have len: "length example_splits = 2"
    by (simp add: example_splits_def calculatePercentageSplit_def)
  have "insert_error env_insert_fails 1 \<noteq> None"
    by (simp add: env_insert_fails_def)
  then have bad: "\<exists>i < length example_splits. insert_error env_insert_fails i \<noteq> None"
    using len by (intro exI [of _ 1]) simp
  have "isl (fst ?run) \<and> committed (snd ?run) = committed example_world"
    using split_orders_atomic [OF idle run] bad by blast
  moreover have "map order_id (committed (snd (createSplitOrders UtilCompletion env_ok
     example_order example_splits ''table-1'' ''order-123'' example_world)))
     = [''order-123'', ''order-123-split-1'', ''order-123-split-2'']"
    by code_simp
  ultimately show ?thesis using idle by blast
qed

theorem completion_once_after_commit_witness:
  "log (snd (createSplitOrders ControllerCompletion env_ok example_order example_splits
      ''table-1'' ''order-123'' example_world))
     = [Connect True, Begin True, Insert ''order-123-split-1'' True,
        Insert ''order-123-split-2'' True, Commit True,
        CompleteOrder ''rest-9'' ''table-1'' 0 ''split'', CheckOrders, CheckCompleted, Release] \<and>
   (\<exists>tr. log (snd (createSplitOrders ControllerCompletion env_ok example_order example_splits
        ''table-1'' ''order-123'' example_world)) = log example_world @ tr \<and>
      (Commit True \<notin> set tr \<and> list_all not_completion tr \<or>
       (\<exists>pre post. tr = pre @ [Commit True,
            CompleteOrder (restaurant_id example_order) (table_id example_order) 0 ''split'']
            @ post \<and>
          list_all before_commit pre \<and> list_all not_completion post \<and>
          Commit True \<notin> set post)))"
proof -
  let ?run = "createSplitOrders ControllerCompletion env_ok example_order example_splits
      ''table-1'' ''order-123'' example_world"
  have run: "?run = (fst ?run, snd ?run)" by simp
  have "log (snd ?run)
     = [Connect True, Begin True, Insert ''order-123-split-1'' True,
        Insert ''order-123-split-2'' True, Commit True,
        CompleteOrder ''rest-9'' ''table-1'' 0 ''split'', CheckOrders, CheckCompleted, Release]"
    by code_simp
  then show ?thesis using completion_once_after_commit [OF run] by blast
qed

theorem split_order_ids_witness:
  "\<exists>results w'.
     createSplitOrders ControllerCompletion env_ok example_order example_splits
       ''table-1'' ''order-123'' example_world = (Inr results, w') \<and>
     length results = 2 \<and>
     r_orderId (results ! 0) = ''order-123-split-1'' \<and>
     r_orderId (results ! 1) = ''order-123-split-2'' \<and>
     r_items (results ! 1) = example_splits ! 1"
proof -
  let ?run = "createSplitOrders ControllerCompletion env_ok example_order example_splits
       ''table-1'' ''order-123'' example_world"
  have c: "connect_error env_ok = None" by (simp add: env_ok_def)
  have "?run = (fst ?run, snd ?run)" by simp
  from completion_failure_tolerated [OF c example_commits _ this]
  obtain results where r: "?run = (Inr results, snd ?run)"
    by (metis prod.collapse)
  have len: "length example_splits = 2"
    by (simp add: example_splits_def calculatePercentageSplit_def)
  have n1: "string_of_nat (0 + 1) = ''1''" and n2: "string_of_nat (1 + 1) = ''2''"
    by code_simp+
  note ids = split_order_ids [OF r]
  have l: "length results = 2" using ids len by simp
  have at: "\<And>i. i < 2 \<Longrightarrow>
      r_orderId (results ! i) = ''order-123'' @ ''-split-'' @ string_of_nat (i + 1) \<and>
      r_items (results ! i) = example_splits ! i"
    using ids len by simp
  have "r_orderId (results ! 0) = ''order-123-split-1''"
    using at [of 0] by (simp only: n1) simp
  moreover have "r_orderId (results ! 1) = ''order-123-split-2'' \<and>
      r_items (results ! 1) = example_splits ! 1"
    using at [of 1] by (simp only: n2) simp
  ultimately show ?thesis using r l by blast
qed

text \<open>
  Claim C2, as the copy of the controller that calls the utility \<open>completeOrder\<close>
  runs when the completion throws after a successful commit: both derived orders are
  in the table, the error of the completion is thrown to the caller after a
  \<open>ROLLBACK\<close> that finds nothing to undo, and \<open>splitBill\<close> answers with 400. The
  lemma \<open>completion_failure_tolerated\<close> above is what the claim says: it holds of
  the other copy, and of this one as long as the completion does not throw.
\<close>

theorem completion_throw_escalates:
  "fst (createSplitOrders UtilCompletion env_completion_throws example_order example_splits
     ''table-1'' ''order-123'' example_world) = Inl (Error ''completion failed'') \<and>
   map order_id (committed (snd (createSplitOrders UtilCompletion env_completion_throws
     example_order example_splits ''table-1'' ''order-123'' example_world)))
     = [''order-123'', ''order-123-split-1'', ''order-123-split-2''] \<and>
   log (snd (createSplitOrders UtilCompletion env_completion_throws example_order
     example_splits ''table-1'' ''order-123'' example_world))
     = [Connect True, Begin True, Insert ''order-123-split-1'' True,
        Insert ''order-123-split-2'' True, Commit True,
        CompleteOrder ''rest-9'' ''table-1'' 0 ''split'', Rollback True, Release] \<and>
   fst (splitBill UtilCompletion env_completion_throws example_request example_world)
     = Some \<lparr>status = 400, body = ErrorBody ''completion failed''\<rparr>"
  by code_simp

end
